theory Spec2Isabelle
  imports Main
begin

section \<open>Values, failures and the external service\<close>

text \<open>
  The server of \<^verbatim>\<open>src/index.js\<close> is modelled function by function. Strings that
  the server receives are lists of code units below 256. A thrown \<^verbatim>\<open>Error\<close> is a
  value that carries its message.
\<close>

datatype error = Error string

fun message :: "error \<Rightarrow> string" where
  "message (Error m) = m"

subsection \<open>Numbers\<close>

text \<open>
  JavaScript numbers are IEEE 754 doubles. Every number the code below computes is an
  integer-valued double or an infinity, and is modelled as such. A double has 53
  significant bits: an integer of more bits is rounded to the nearest double, a tie going
  to the one whose last significant bit is zero, and a magnitude that rounds to
  \<open>2 ^ 1024\<close> or more is infinite.
\<close>

datatype number = Fin int | PosInf | NegInf

text \<open>The number of bits by which a magnitude exceeds 53.\<close>

function excess_bits :: "int \<Rightarrow> nat" where
  "excess_bits a = (if a < 2 ^ 53 then 0 else Suc (excess_bits (a div 2)))"
  by pat_completeness auto
termination
  by (relation "measure nat") auto

declare excess_bits.simps [simp del]

definition round_magnitude :: "int \<Rightarrow> int" where
  "round_magnitude a =
     (let k = excess_bits a; q = a div 2 ^ k; r = a mod 2 ^ k
      in if 2 ^ k < 2 * r \<or> (2 * r = 2 ^ k \<and> odd q) then (q + 1) * 2 ^ k else q * 2 ^ k)"

text \<open>The double for an integer, as every arithmetic operation and \<^verbatim>\<open>parseInt\<close>
  produce it from the exact result.\<close>

definition to_number :: "int \<Rightarrow> number" where
  "to_number x =
     (let m = round_magnitude \<bar>x\<bar>
      in if 2 ^ 1024 \<le> m then (if x < 0 then NegInf else PosInf)
         else Fin (if x < 0 then - m else m))"

text \<open>\<^verbatim>\<open>x * 26\<close>, and \<^verbatim>\<open>x + k\<close> for an integer \<open>k\<close> that is itself a double.\<close>

definition times26 :: "number \<Rightarrow> number" where
  "times26 x =
     (case x of Fin a \<Rightarrow> to_number (a * 26) | PosInf \<Rightarrow> PosInf | NegInf \<Rightarrow> NegInf)"

definition plus_int :: "number \<Rightarrow> int \<Rightarrow> number" where
  "plus_int x k =
     (case x of Fin a \<Rightarrow> to_number (a + k) | PosInf \<Rightarrow> PosInf | NegInf \<Rightarrow> NegInf)"

subsection \<open>Values\<close>

datatype jsval =
    JUndefined
  | JNull
  | JBool bool
  | JNum int
  | JInfinity
  | JNegInfinity
  | JStr string
  | JArr "jsval list"
  | JObj "(string \<times> jsval) list"

fun truthy :: "jsval \<Rightarrow> bool" where
  "truthy JUndefined = False"
| "truthy JNull = False"
| "truthy (JBool b) = b"
| "truthy (JNum n) = (n \<noteq> 0)"
| "truthy JInfinity = True"
| "truthy JNegInfinity = True"
| "truthy (JStr s) = (s \<noteq> [])"
| "truthy (JArr xs) = True"
| "truthy (JObj kvs) = True"

text \<open>\<^verbatim>\<open>a || b\<close> on values.\<close>

definition js_or :: "jsval \<Rightarrow> jsval \<Rightarrow> jsval" where
  "js_or a b = (if truthy a then a else b)"

text \<open>Reading a destructured field of an arguments object: absent fields are undefined.\<close>

definition field :: "string \<Rightarrow> (string \<times> jsval) list \<Rightarrow> jsval" where
  "field k kvs = (case map_of kvs k of None \<Rightarrow> JUndefined | Some v \<Rightarrow> v)"

text \<open>Reading a property of an arbitrary value (\<^verbatim>\<open>v.k\<close>), for property names that
  no built-in prototype defines: it throws on undefined and null.\<close>

fun member :: "string \<Rightarrow> jsval \<Rightarrow> error + jsval" where
  "member k JUndefined =
     Inl (Error (''Cannot read properties of undefined (reading '' @ [CHR 0x27] @ k @ [CHR 0x27] @ '')''))"
| "member k JNull =
     Inl (Error (''Cannot read properties of null (reading '' @ [CHR 0x27] @ k @ [CHR 0x27] @ '')''))"
| "member k (JObj kvs) = Inr (field k kvs)"
| "member k v = Inr JUndefined"

fun join_with :: "string \<Rightarrow> string list \<Rightarrow> string" where
  "join_with sep [] = []"
| "join_with sep [s] = s"
| "join_with sep (s # t # ss) = s @ sep @ join_with sep (t # ss)"

fun nat_to_string :: "nat \<Rightarrow> string" where
  "nat_to_string n =
     (if n < 10 then [char_of (48 + n)]
      else nat_to_string (n div 10) @ [char_of (48 + n mod 10)])"

text \<open>The string conversion of template literals and of \<^verbatim>\<open>Array.prototype.join\<close>.\<close>

fun js_to_string :: "jsval \<Rightarrow> string" where
  "js_to_string JUndefined = ''undefined''"
| "js_to_string JNull = ''null''"
| "js_to_string (JBool b) = (if b then ''true'' else ''false'')"
| "js_to_string (JNum n) =
     (if n < 0 then CHR ''-'' # nat_to_string (nat (- n)) else nat_to_string (nat n))"
| "js_to_string JInfinity = ''Infinity''"
| "js_to_string JNegInfinity = ''-Infinity''"
| "js_to_string (JStr s) = s"
| "js_to_string (JArr xs) =
     join_with '','' (map (\<lambda>x. if x = JUndefined \<or> x = JNull then [] else js_to_string x) xs)"
| "js_to_string (JObj kvs) = ''[object Object]''"

subsection \<open>Calls to the Google services\<close>

datatype api_method =
    Spreadsheets_create
  | Spreadsheets_get
  | Spreadsheets_batchUpdate
  | Values_get
  | Values_update
  | Values_append
  | Values_clear
  | Files_list
  | Files_create
  | Files_delete
  | Files_get
  | Files_update
  | Permissions_create

text \<open>One request to the external service: the access token of the client that sends it,
  the method, the parameter object, the media body of an upload and the request options.\<close>

record ext_call =
  call_token :: string
  call_method :: api_method
  call_params :: jsval
  call_media :: "nat list option"
  call_options :: jsval

record 'a response =
  status :: int
  data :: 'a

text \<open>What \<^verbatim>\<open>spreadsheets.get\<close> answers under the field mask
  \<^verbatim>\<open>sheets(properties(sheetId,title))\<close>. The code guards against a missing
  \<^verbatim>\<open>sheets\<close> list and against an entry without \<^verbatim>\<open>properties\<close>.\<close>

record sheet_properties =
  properties_sheetId :: int
  properties_title :: string

record sheet =
  properties :: "sheet_properties option"

record spreadsheet =
  sheets :: "sheet list option"

text \<open>The external service answers a request with a failure or a response; the three
  shapes of response the handlers read are sheet metadata, a JSON payload and raw bytes.\<close>

record service =
  answer_metadata :: "ext_call \<Rightarrow> error + spreadsheet response"
  answer_json :: "ext_call \<Rightarrow> error + jsval response"
  answer_bytes :: "ext_call \<Rightarrow> error + nat list response"

text \<open>Node's \<^verbatim>\<open>Buffer\<close> conversions and the members of \<^verbatim>\<open>Object.prototype\<close>
  belong to the platform, not to this repository; they are parameters of the model.\<close>

record platform =
  buffer_from_base64 :: "jsval \<Rightarrow> error + nat list"
  buffer_to_base64 :: "nat list \<Rightarrow> string"
  call_prototype_member :: "string \<Rightarrow> (string \<times> jsval) list \<Rightarrow> error + jsval"

text \<open>An asynchronous computation yields the external calls it made, in order, and either
  the failure it threw or its result.\<close>

type_synonym 'a io = "ext_call list \<times> (error + 'a)"

definition return_io :: "'a \<Rightarrow> 'a io" where
  "return_io x = ([], Inr x)"

definition throw_io :: "error \<Rightarrow> 'a io" where
  "throw_io e = ([], Inl e)"

definition lift_io :: "error + 'a \<Rightarrow> 'a io" where
  "lift_io r = ([], r)"

definition bind_io :: "'a io \<Rightarrow> ('a \<Rightarrow> 'b io) \<Rightarrow> 'b io" where
  "bind_io m f =
     (case m of
        (cs, Inl e) \<Rightarrow> (cs, Inl e)
      | (cs, Inr x) \<Rightarrow> (case f x of (cs', r) \<Rightarrow> (cs @ cs', r)))"

datatype clients = Clients (client_token: string)

definition request_of :: "clients \<Rightarrow> api_method \<Rightarrow> jsval \<Rightarrow> ext_call" where
  "request_of c m p =
     \<lparr>call_token = client_token c, call_method = m, call_params = p,
      call_media = None, call_options = JUndefined\<rparr>"

definition send_json :: "service \<Rightarrow> ext_call \<Rightarrow> jsval response io" where
  "send_json S c = ([c], answer_json S c)"

definition send_metadata :: "service \<Rightarrow> ext_call \<Rightarrow> spreadsheet response io" where
  "send_metadata S c = ([c], answer_metadata S c)"

definition send_bytes :: "service \<Rightarrow> ext_call \<Rightarrow> nat list response io" where
  "send_bytes S c = ([c], answer_bytes S c)"

section \<open>Utilities\<close>

subsection \<open>getBearerToken\<close>

record request =
  header_authorization :: "string option"
  body_name :: "string option"
  body_args :: "(string \<times> jsval) list option"

definition charCode :: "char \<Rightarrow> int" where
  "charCode c = int (of_char c)"

text \<open>The classes \<^verbatim>\<open>\s\<close> and \<^verbatim>\<open>.\<close> of JavaScript regular expressions, on code
  units below 256.\<close>

definition is_space :: "char \<Rightarrow> bool" where
  "is_space c = (charCode c \<in> {9, 10, 11, 12, 13, 32, 160})"

definition is_line_terminator :: "char \<Rightarrow> bool" where
  "is_line_terminator c = (charCode c = 10 \<or> charCode c = 13)"

text \<open>The flag \<^verbatim>\<open>i\<close> compares the letters of the word without regard to case.\<close>

definition toLowerCase_char :: "char \<Rightarrow> char" where
  "toLowerCase_char c =
     (if 65 \<le> charCode c \<and> charCode c \<le> 90 then char_of (of_char c + (32::nat)) else c)"

text \<open>\<^verbatim>\<open>\s+(.+)$\<close> after the word: the greedy \<^verbatim>\<open>\s+\<close> first takes all \<open>k\<close>
  leading white-space characters and gives them back one at a time until the rest is a
  non-empty run without line terminators.\<close>

fun bearer_group :: "nat \<Rightarrow> string \<Rightarrow> string option" where
  "bearer_group 0 rest = None"
| "bearer_group (Suc k) rest =
     (let tok = drop (Suc k) rest
      in if tok \<noteq> [] \<and> list_all (\<lambda>c. \<not> is_line_terminator c) tok then Some tok
         else bearer_group k rest)"

text \<open>\<^verbatim>\<open>header.match(/^Bearer\s+(.+)$/i)\<close>, giving the first group.\<close>

definition match_bearer :: "string \<Rightarrow> string option" where
  "match_bearer header =
     (if map toLowerCase_char (take 6 header) = ''bearer''
      then bearer_group (length (takeWhile is_space (drop 6 header))) (drop 6 header)
      else None)"

definition getBearerToken :: "request \<Rightarrow> error + string" where
  "getBearerToken req =
     (case header_authorization req of
        None \<Rightarrow> Inl (Error ''Missing Authorization header'')
      | Some header \<Rightarrow>
          if header = [] then Inl (Error ''Missing Authorization header'')
          else (case match_bearer header of
                  None \<Rightarrow> Inl (Error ''Invalid Authorization header format'')
                | Some tok \<Rightarrow> Inr tok))"

definition getGoogleClients :: "request \<Rightarrow> error + clients" where
  "getGoogleClients req =
     (case getBearerToken req of Inl e \<Rightarrow> Inl e | Inr tok \<Rightarrow> Inr (Clients tok))"

subsection \<open>getSheetIdByName\<close>

text \<open>The predicate of \<^verbatim>\<open>find\<close>: \<^verbatim>\<open>s.properties && s.properties.title === sheetName\<close>.\<close>

definition titled :: "jsval \<Rightarrow> sheet \<Rightarrow> bool" where
  "titled sheetName s =
     (case properties s of None \<Rightarrow> False | Some p \<Rightarrow> JStr (properties_title p) = sheetName)"

definition getSheetIdByName :: "service \<Rightarrow> clients \<Rightarrow> jsval \<Rightarrow> jsval \<Rightarrow> int io" where
  "getSheetIdByName S sheetsApi spreadsheetId sheetName =
     bind_io
       (send_metadata S
          (request_of sheetsApi Spreadsheets_get
             (JObj [(''spreadsheetId'', spreadsheetId),
                    (''fields'', JStr ''sheets(properties(sheetId,title))'')])))
       (\<lambda>meta.
          case find (titled sheetName) (case sheets (data meta) of None \<Rightarrow> [] | Some ss \<Rightarrow> ss) of
            None \<Rightarrow> throw_io (Error (''Sheet not found: '' @ js_to_string sheetName))
          | Some s \<Rightarrow>
              (case properties s of
                 None \<Rightarrow> throw_io (Error ''Cannot read properties of undefined (reading 'sheetId')'')
               | Some p \<Rightarrow> return_io (properties_sheetId p)))"

subsection \<open>columnLettersToIndex\<close>

text \<open>A string that the code indexes with \<^verbatim>\<open>charCodeAt\<close> is the list of its code
  units.\<close>

definition units :: "string \<Rightarrow> nat list" where
  "units s = map of_char s"

definition columnLettersToIndex :: "nat list \<Rightarrow> number" where
  "columnLettersToIndex letters =
     plus_int
       (foldl (\<lambda>index u. plus_int (times26 index) (int u - 64)) (Fin 0) letters)
       (- 1)"

subsection \<open>parseA1ToGridRange\<close>

record grid_range =
  sheetId :: int
  startRowIndex :: number
  endRowIndex :: number
  startColumnIndex :: number
  endColumnIndex :: number

text \<open>\<^verbatim>\<open>String.prototype.split\<close> on a one-character separator.\<close>

fun split :: "char \<Rightarrow> string \<Rightarrow> string list" where
  "split sep [] = [[]]"
| "split sep (c # cs) =
     (if c = sep then [] # split sep cs
      else (case split sep cs of [] \<Rightarrow> [[c]] | p # ps \<Rightarrow> (c # p) # ps))"

text \<open>\<^verbatim>\<open>sheetPart.replace(/^'(.+)'$/, '$1')\<close>: the pattern matches a string that begins
  and ends with a single quote around at least one character, none a line terminator.\<close>

definition strip_quotes :: "string \<Rightarrow> string" where
  "strip_quotes s =
     (if 3 \<le> length s \<and> hd s = CHR 0x27 \<and> last s = CHR 0x27
         \<and> list_all (\<lambda>c. \<not> is_line_terminator c) (butlast (tl s))
      then butlast (tl s) else s)"

text \<open>\<^verbatim>\<open>String.prototype.toUpperCase\<close> on the code units below 256. The letters a to
  z and the accented small letters of Latin-1 go to their capitals 32 below; the sharp s
  (223) becomes two units, \<open>SS\<close>; the micro sign (181) and the y with diaeresis (255)
  have their capitals, 924 and 376, beyond 255. The result is a list of code units.\<close>

definition toUpperCase_char :: "char \<Rightarrow> nat list" where
  "toUpperCase_char c =
     (let u = of_char c
      in if 97 \<le> u \<and> u \<le> 122 then [u - 32]
         else if u = 181 then [924]
         else if u = 223 then [83, 83]
         else if 224 \<le> u \<and> u \<le> 254 \<and> u \<noteq> 247 then [u - 32]
         else if u = 255 then [376]
         else [u])"

definition toUpperCase :: "string \<Rightarrow> nat list" where
  "toUpperCase s = concat (map toUpperCase_char s)"

text \<open>The classes \<^verbatim>\<open>[A-Z]\<close> and \<^verbatim>\<open>\d\<close> on code units.\<close>

definition upper_letter :: "nat \<Rightarrow> bool" where
  "upper_letter u = (65 \<le> u \<and> u \<le> 90)"

definition decimal_digit :: "nat \<Rightarrow> bool" where
  "decimal_digit u = (48 \<le> u \<and> u \<le> 57)"

text \<open>\<^verbatim>\<open>/([A-Z]+)(\d+):([A-Z]+)(\d+)/\<close> tried at the start of a string; the colon is
  the code unit 58. Each group is greedy and the character classes are disjoint, so each
  group is the whole run of its class: giving a character back never helps the match.\<close>

definition match_here :: "nat list \<Rightarrow> (nat list \<times> nat list \<times> nat list \<times> nat list) option" where
  "match_here s =
     (let c1 = takeWhile upper_letter s; s1 = dropWhile upper_letter s;
          r1 = takeWhile decimal_digit s1; s2 = dropWhile decimal_digit s1
      in if c1 = [] \<or> r1 = [] then None
         else (case s2 of
                 [] \<Rightarrow> None
               | x # s3 \<Rightarrow>
                   if x \<noteq> 58 then None
                   else (let c2 = takeWhile upper_letter s3; s4 = dropWhile upper_letter s3;
                             r2 = takeWhile decimal_digit s4
                         in if c2 = [] \<or> r2 = [] then None else Some (c1, r1, c2, r2))))"

text \<open>The pattern has no anchors: \<^verbatim>\<open>match\<close> tries every start position from the left.\<close>

fun match_range :: "nat list \<Rightarrow> (nat list \<times> nat list \<times> nat list \<times> nat list) option" where
  "match_range [] = None"
| "match_range (c # cs) =
     (case match_here (c # cs) of Some m \<Rightarrow> Some m | None \<Rightarrow> match_range cs)"

text \<open>\<^verbatim>\<open>parseInt(r, 10)\<close> on a run of decimal digits: the double for the integer that
  the digits denote. (ECMAScript allows an approximation after the 20th significant
  digit; the nearest double is taken throughout.)\<close>

definition parseInt :: "nat list \<Rightarrow> number" where
  "parseInt r = to_number (foldl (\<lambda>n u. n * 10 + (int u - 48)) 0 r)"

text \<open>The message of the first check: \<^verbatim>\<open>range must include sheet name, e.g., "Sheet1!A1:B2"\<close>.\<close>

definition sheet_name_message :: string where
  "sheet_name_message =
     ''range must include sheet name, e.g., '' @ [CHR 0x22] @ ''Sheet1!A1:B2'' @ [CHR 0x22]"

definition parseA1ToGridRange :: "service \<Rightarrow> clients \<Rightarrow> jsval \<Rightarrow> jsval \<Rightarrow> grid_range io" where
  "parseA1ToGridRange S sheetsApi spreadsheetId a1Range =
     (case a1Range of
        JStr a1 \<Rightarrow>
          (case split CHR ''!'' a1 of
             sheetPart # rangePartRaw # rest \<Rightarrow>
               if rangePartRaw = []
               then throw_io (Error sheet_name_message)
               else
                 bind_io
                   (getSheetIdByName S sheetsApi spreadsheetId (JStr (strip_quotes sheetPart)))
                   (\<lambda>sid.
                      case match_range (toUpperCase rangePartRaw) of
                        None \<Rightarrow> throw_io (Error ''range must be like A1:B2'')
                      | Some (c1, r1, c2, r2) \<Rightarrow>
                          return_io
                            \<lparr>sheetId = sid,
                             startRowIndex = plus_int (parseInt r1) (- 1),
                             endRowIndex = parseInt r2,
                             startColumnIndex = columnLettersToIndex c1,
                             endColumnIndex = plus_int (columnLettersToIndex c2) 1\<rparr>)
           | parts \<Rightarrow> throw_io (Error sheet_name_message))
      | JUndefined \<Rightarrow> throw_io (Error ''Cannot read properties of undefined (reading 'split')'')
      | JNull \<Rightarrow> throw_io (Error ''Cannot read properties of null (reading 'split')'')
      | other \<Rightarrow> throw_io (Error ''a1Range.split is not a function''))"

section \<open>Tool implementations\<close>

type_synonym handler =
  "platform \<Rightarrow> service \<Rightarrow> (string \<times> jsval) list \<Rightarrow> clients \<Rightarrow> jsval io"

text \<open>\<^verbatim>\<open>const res = await api(params); return res.data;\<close>\<close>

definition call_data :: "service \<Rightarrow> ext_call \<Rightarrow> jsval io" where
  "call_data S c = bind_io (send_json S c) (\<lambda>res. return_io (data res))"

definition sheets_create_spreadsheet :: handler where
  "sheets_create_spreadsheet P S args c =
     call_data S (request_of c Spreadsheets_create
       (JObj [(''requestBody'',
               JObj [(''properties'', JObj [(''title'', field ''title'' args)])])]))"

definition sheets_get_values :: handler where
  "sheets_get_values P S args c =
     call_data S (request_of c Values_get
       (JObj [(''spreadsheetId'', field ''spreadsheetId'' args),
              (''range'', field ''range'' args)]))"

definition sheets_update_values :: handler where
  "sheets_update_values P S args c =
     call_data S (request_of c Values_update
       (JObj [(''spreadsheetId'', field ''spreadsheetId'' args),
              (''range'', field ''range'' args),
              (''valueInputOption'', JStr ''RAW''),
              (''requestBody'', JObj [(''values'', field ''values'' args)])]))"

definition sheets_append_values :: handler where
  "sheets_append_values P S args c =
     call_data S (request_of c Values_append
       (JObj [(''spreadsheetId'', field ''spreadsheetId'' args),
              (''range'', field ''range'' args),
              (''valueInputOption'', JStr ''RAW''),
              (''insertDataOption'', JStr ''INSERT_ROWS''),
              (''requestBody'', JObj [(''values'', field ''values'' args)])]))"

definition sheets_clear_values :: handler where
  "sheets_clear_values P S args c =
     call_data S (request_of c Values_clear
       (JObj [(''spreadsheetId'', field ''spreadsheetId'' args),
              (''range'', field ''range'' args),
              (''requestBody'', JObj [])]))"

text \<open>\<^verbatim>\<open>spreadsheets.batchUpdate({spreadsheetId, requestBody: {requests}})\<close>\<close>

definition batchUpdate :: "clients \<Rightarrow> jsval \<Rightarrow> jsval \<Rightarrow> ext_call" where
  "batchUpdate c spreadsheetId requests =
     request_of c Spreadsheets_batchUpdate
       (JObj [(''spreadsheetId'', spreadsheetId),
              (''requestBody'', JObj [(''requests'', requests)])])"

definition sheets_create_sheet :: handler where
  "sheets_create_sheet P S args c =
     call_data S (batchUpdate c (field ''spreadsheetId'' args)
       (JArr [JObj [(''addSheet'',
                     JObj [(''properties'', JObj [(''title'', field ''sheetName'' args)])])]]))"

definition sheets_delete_sheet :: handler where
  "sheets_delete_sheet P S args c =
     bind_io (getSheetIdByName S c (field ''spreadsheetId'' args) (field ''sheetName'' args))
       (\<lambda>sid. call_data S (batchUpdate c (field ''spreadsheetId'' args)
                 (JArr [JObj [(''deleteSheet'', JObj [(''sheetId'', JNum sid)])]])))"

definition sheets_get_info :: handler where
  "sheets_get_info P S args c =
     call_data S (request_of c Spreadsheets_get
       (JObj [(''spreadsheetId'', field ''spreadsheetId'' args)]))"

text \<open>A number as a value.\<close>

definition number_value :: "number \<Rightarrow> jsval" where
  "number_value x = (case x of Fin n \<Rightarrow> JNum n | PosInf \<Rightarrow> JInfinity | NegInf \<Rightarrow> JNegInfinity)"

definition grid_range_value :: "grid_range \<Rightarrow> jsval" where
  "grid_range_value g =
     JObj [(''sheetId'', JNum (sheetId g)),
           (''startRowIndex'', number_value (startRowIndex g)),
           (''endRowIndex'', number_value (endRowIndex g)),
           (''startColumnIndex'', number_value (startColumnIndex g)),
           (''endColumnIndex'', number_value (endColumnIndex g))]"

definition sheets_format_cells :: handler where
  "sheets_format_cells P S args c =
     bind_io (parseA1ToGridRange S c (field ''spreadsheetId'' args) (field ''range'' args))
       (\<lambda>gridRange. call_data S (batchUpdate c (field ''spreadsheetId'' args)
          (JArr [JObj [(''repeatCell'',
                        JObj [(''range'', grid_range_value gridRange),
                              (''cell'', JObj [(''userEnteredFormat'', field ''format'' args)]),
                              (''fields'', JStr ''userEnteredFormat'')])]])))"

definition sheets_batch_update :: handler where
  "sheets_batch_update P S args c =
     call_data S (batchUpdate c (field ''spreadsheetId'' args) (field ''requests'' args))"

definition drive_list_files :: handler where
  "drive_list_files P S args c =
     call_data S (request_of c Files_list
       (JObj [(''q'', js_or (field ''query'' args) JUndefined),
              (''pageSize'', js_or (field ''pageSize'' args) (JNum 100)),
              (''fields'',
               JStr ''files(id,name,mimeType,parents,owners,modifiedTime,size),nextPageToken''),
              (''supportsAllDrives'', JBool True),
              (''includeItemsFromAllDrives'', JBool True)]))"

text \<open>\<^verbatim>\<open>parentId ? [parentId] : undefined\<close>\<close>

definition parents_of :: "jsval \<Rightarrow> jsval" where
  "parents_of parentId = (if truthy parentId then JArr [parentId] else JUndefined)"

definition drive_create_folder :: handler where
  "drive_create_folder P S args c =
     call_data S (request_of c Files_create
       (JObj [(''requestBody'',
               JObj [(''name'', field ''name'' args),
                     (''mimeType'', JStr ''application/vnd.google-apps.folder''),
                     (''parents'', parents_of (field ''parentId'' args))]),
              (''fields'', JStr ''id,name,parents''),
              (''supportsAllDrives'', JBool True)]))"

definition drive_upload_file :: handler where
  "drive_upload_file P S args c =
     bind_io (lift_io (buffer_from_base64 P (field ''data'' args)))
       (\<lambda>buffer.
          if length buffer > 10 * 1024 * 1024
          then throw_io (Error ''File too large: max 10MB base64 payload supported'')
          else call_data S
                 ((request_of c Files_create
                     (JObj [(''requestBody'',
                             JObj [(''name'', field ''name'' args),
                                   (''mimeType'', field ''mimeType'' args),
                                   (''parents'', parents_of (field ''parentId'' args))]),
                            (''media'', JObj [(''mimeType'', field ''mimeType'' args)]),
                            (''fields'', JStr ''id,name,mimeType,parents''),
                            (''supportsAllDrives'', JBool True)]))
                  \<lparr>call_media := Some buffer\<rparr>))"

definition drive_delete_file :: handler where
  "drive_delete_file P S args c =
     bind_io (send_json S (request_of c Files_delete
                (JObj [(''fileId'', field ''fileId'' args), (''supportsAllDrives'', JBool True)])))
       (\<lambda>res. return_io (JObj [(''success'', JBool True), (''status'', JNum (status res))]))"

definition drive_get_file_info :: handler where
  "drive_get_file_info P S args c =
     call_data S (request_of c Files_get
       (JObj [(''fileId'', field ''fileId'' args),
              (''fields'', JStr ''id,name,mimeType,parents,owners,modifiedTime,size''),
              (''supportsAllDrives'', JBool True)]))"

definition drive_download_file :: handler where
  "drive_download_file P S args c =
     bind_io (send_json S (request_of c Files_get
                (JObj [(''fileId'', field ''fileId'' args),
                       (''fields'', JStr ''id,name,mimeType''),
                       (''supportsAllDrives'', JBool True)])))
       (\<lambda>meta.
          bind_io (send_bytes S
                     ((request_of c Files_get
                         (JObj [(''fileId'', field ''fileId'' args), (''alt'', JStr ''media'')]))
                      \<lparr>call_options := JObj [(''responseType'', JStr ''arraybuffer'')]\<rparr>))
            (\<lambda>res.
               bind_io (lift_io (member ''id'' (data meta)))
                 (\<lambda>file_id.
                    bind_io (lift_io (member ''name'' (data meta)))
                      (\<lambda>file_name.
                         bind_io (lift_io (member ''mimeType'' (data meta)))
                           (\<lambda>mime.
                              return_io
                                (JObj [(''id'', file_id), (''name'', file_name),
                                       (''mimeType'', mime),
                                       (''data'', JStr (buffer_to_base64 P (data res)))]))))))"

definition drive_share_file :: handler where
  "drive_share_file P S args c =
     call_data S (request_of c Permissions_create
       (JObj [(''fileId'', field ''fileId'' args),
              (''requestBody'',
               JObj [(''type'', JStr ''user''),
                     (''role'', js_or (field ''role'' args) (JStr ''reader'')),
                     (''emailAddress'', field ''email'' args)]),
              (''sendNotificationEmail'', JBool False),
              (''supportsAllDrives'', JBool True),
              (''fields'', JStr ''id,role'')]))"

text \<open>\<^verbatim>\<open>(file.data.parents || []).join(',')\<close>\<close>

definition join_parents :: "jsval \<Rightarrow> error + string" where
  "join_parents parents =
     (case js_or parents (JArr []) of
        JArr xs \<Rightarrow>
          Inr (join_with '','' (map (\<lambda>x. if x = JUndefined \<or> x = JNull then [] else js_to_string x) xs))
      | other \<Rightarrow> Inl (Error ''(file.data.parents || []).join is not a function''))"

definition drive_move_file :: handler where
  "drive_move_file P S args c =
     bind_io (send_json S (request_of c Files_get
                (JObj [(''fileId'', field ''fileId'' args),
                       (''fields'', JStr ''parents''),
                       (''supportsAllDrives'', JBool True)])))
       (\<lambda>file.
          bind_io (lift_io (member ''parents'' (data file)))
            (\<lambda>parents.
               bind_io (lift_io (join_parents parents))
                 (\<lambda>previousParents.
                    call_data S (request_of c Files_update
                      (JObj [(''fileId'', field ''fileId'' args),
                             (''addParents'', field ''folderId'' args),
                             (''removeParents'', js_or (JStr previousParents) JUndefined),
                             (''fields'', JStr ''id,parents''),
                             (''supportsAllDrives'', JBool True)])))))"

definition drive_rename_file :: handler where
  "drive_rename_file P S args c =
     call_data S (request_of c Files_update
       (JObj [(''fileId'', field ''fileId'' args),
              (''requestBody'', JObj [(''name'', field ''newName'' args)]),
              (''fields'', JStr ''id,name''),
              (''supportsAllDrives'', JBool True)]))"

text \<open>The registry \<^verbatim>\<open>toolHandlers\<close>: an object literal with one own property per tool.\<close>

definition toolHandlers :: "(string \<times> handler) list" where
  "toolHandlers =
     [(''sheets.create_spreadsheet'', sheets_create_spreadsheet),
      (''sheets.get_values'', sheets_get_values),
      (''sheets.update_values'', sheets_update_values),
      (''sheets.append_values'', sheets_append_values),
      (''sheets.clear_values'', sheets_clear_values),
      (''sheets.create_sheet'', sheets_create_sheet),
      (''sheets.delete_sheet'', sheets_delete_sheet),
      (''sheets.get_info'', sheets_get_info),
      (''sheets.format_cells'', sheets_format_cells),
      (''sheets.batch_update'', sheets_batch_update),
      (''drive_list_files'', drive_list_files),
      (''drive_create_folder'', drive_create_folder),
      (''drive_upload_file'', drive_upload_file),
      (''drive_delete_file'', drive_delete_file),
      (''drive_get_file_info'', drive_get_file_info),
      (''drive_download_file'', drive_download_file),
      (''drive_share_file'', drive_share_file),
      (''drive_move_file'', drive_move_file),
      (''drive_rename_file'', drive_rename_file)]"

section \<open>The dispatch endpoint\<close>

text \<open>The registry is a plain object, so \<^verbatim>\<open>toolHandlers[name]\<close> also finds the
  properties every object inherits from \<^verbatim>\<open>Object.prototype\<close>.\<close>

definition object_prototype_keys :: "string list" where
  "object_prototype_keys =
     [''constructor'', ''__defineGetter__'', ''__defineSetter__'', ''hasOwnProperty'',
      ''__lookupGetter__'', ''__lookupSetter__'', ''isPrototypeOf'', ''propertyIsEnumerable'',
      ''toString'', ''valueOf'', ''__proto__'', ''toLocaleString'']"

datatype property = Own handler | Inherited | Absent

definition lookup_handler :: "string \<Rightarrow> property" where
  "lookup_handler name =
     (case map_of toolHandlers name of
        Some h \<Rightarrow> Own h
      | None \<Rightarrow> if name \<in> set object_prototype_keys then Inherited else Absent)"

record http_response =
  http_status :: int
  http_body :: jsval

definition error_response :: "int \<Rightarrow> string \<Rightarrow> http_response" where
  "error_response code msg = \<lparr>http_status = code, http_body = JObj [(''error'', JStr msg)]\<rparr>"

text \<open>The \<^verbatim>\<open>catch\<close> block: \<^verbatim>\<open>err && err.message ? err.message : 'Unknown error'\<close>.\<close>

definition caught :: "error \<Rightarrow> http_response" where
  "caught err =
     error_response 400 (if message err \<noteq> [] then message err else ''Unknown error'')"

text \<open>\<^verbatim>\<open>app.post('/mcp/tool', ...)\<close>: the external calls made while the request is
  served, and the response sent.\<close>

definition mcp_tool :: "platform \<Rightarrow> service \<Rightarrow> request \<Rightarrow> ext_call list \<times> http_response" where
  "mcp_tool P S req =
     (case body_name req of
        None \<Rightarrow> ([], error_response 400 ''Missing tool name'')
      | Some name \<Rightarrow>
          if name = [] then ([], error_response 400 ''Missing tool name'')
          else
            (case lookup_handler name of
               Absent \<Rightarrow> ([], error_response 404 (''Unknown tool: '' @ name))
             | found \<Rightarrow>
                 (case getGoogleClients req of
                    Inl err \<Rightarrow> ([], caught err)
                  | Inr clients \<Rightarrow>
                      (case (case found of
                               Own handler \<Rightarrow>
                                 handler P S (case body_args req of None \<Rightarrow> [] | Some a \<Rightarrow> a) clients
                             | other \<Rightarrow>
                                 lift_io (call_prototype_member P name
                                            (case body_args req of None \<Rightarrow> [] | Some a \<Rightarrow> a))) of
                         (calls, Inr result) \<Rightarrow> (calls, \<lparr>http_status = 200, http_body = result\<rparr>)
                       | (calls, Inl err) \<Rightarrow> (calls, caught err)))))"

section \<open>Notions of the specification\<close>

subsection \<open>Column letters and row numbers\<close>

definition alphabet :: "nat list" where
  "alphabet = units ''ABCDEFGHIJKLMNOPQRSTUVWXYZ''"

definition numerals :: "nat list" where
  "numerals = units ''0123456789''"

fun position_from :: "int \<Rightarrow> nat list \<Rightarrow> nat \<Rightarrow> int" where
  "position_from i [] c = 0"
| "position_from i (a # as) c = (if a = c then i else position_from (i + 1) as c)"

text \<open>The 1-based position of a letter in the alphabet: \<open>A\<close> is 1, \<open>Z\<close> is 26.\<close>

definition letter_position :: "nat \<Rightarrow> int" where
  "letter_position c = position_from 1 alphabet c"

text \<open>The value of a letter sequence as a bijective base-26 numeral: the letter \<open>k\<close>
  places from the right counts its position times \<open>26 ^ k\<close>.\<close>

fun bijective_base26 :: "nat list \<Rightarrow> int" where
  "bijective_base26 [] = 0"
| "bijective_base26 (c # cs) = letter_position c * 26 ^ length cs + bijective_base26 cs"

text \<open>The value of a digit, and the number that a sequence of digits denotes.\<close>

definition digit_value :: "nat \<Rightarrow> int" where
  "digit_value c = position_from 0 numerals c"

fun decimal_value :: "nat list \<Rightarrow> int" where
  "decimal_value [] = 0"
| "decimal_value (c # cs) = digit_value c * 10 ^ length cs + decimal_value cs"

text \<open>A non-empty run of the letters A to Z, and a non-empty run of decimal digits: as
  code units, and as text.\<close>

definition letter_run :: "nat list \<Rightarrow> bool" where
  "letter_run s = (s \<noteq> [] \<and> list_all upper_letter s)"

definition digit_run :: "nat list \<Rightarrow> bool" where
  "digit_run s = (s \<noteq> [] \<and> list_all decimal_digit s)"

definition letters :: "string \<Rightarrow> bool" where
  "letters s = letter_run (units s)"

definition digits :: "string \<Rightarrow> bool" where
  "digits s = digit_run (units s)"

text \<open>The order of spreadsheet columns A, B, ..., Z, AA, AB, ...: a shorter name comes
  first, and names of one length are in dictionary order.\<close>

fun dictionary_before :: "nat list \<Rightarrow> nat list \<Rightarrow> bool" where
  "dictionary_before (a # s) (b # t) =
     (letter_position a < letter_position b \<or> (a = b \<and> dictionary_before s t))"
| "dictionary_before s t = False"

definition column_before :: "nat list \<Rightarrow> nat list \<Rightarrow> bool" where
  "column_before s t =
     (length s < length t \<or> (length s = length t \<and> dictionary_before s t))"

subsection \<open>Range references\<close>

text \<open>A sheet name wrapped in single quotes.\<close>

definition quoted :: "string \<Rightarrow> string" where
  "quoted n = [CHR 0x27] @ n @ [CHR 0x27]"

definition is_quoted :: "string \<Rightarrow> bool" where
  "is_quoted s = (2 \<le> length s \<and> hd s = CHR 0x27 \<and> last s = CHR 0x27)"

definition single_line :: "string \<Rightarrow> bool" where
  "single_line s = list_all (\<lambda>c. \<not> is_line_terminator c) s"

text \<open>The span \<open>A1:B2\<close> built from its four groups.\<close>

definition span_of :: "string \<Rightarrow> string \<Rightarrow> string \<Rightarrow> string \<Rightarrow> string" where
  "span_of c1 r1 c2 r2 = c1 @ r1 @ '':'' @ c2 @ r2"

text \<open>Code units that are, as a whole, letters, digits, a colon, letters, digits.\<close>

definition entire_span :: "nat list \<Rightarrow> bool" where
  "entire_span s =
     (case match_here s of
        None \<Rightarrow> False
      | Some (c1, r1, c2, r2) \<Rightarrow> s = c1 @ r1 @ [58] @ c2 @ r2)"

text \<open>Code units that contain letters, digits, a colon, letters and digits in a row.\<close>

definition contains_span :: "nat list \<Rightarrow> bool" where
  "contains_span s =
     (\<exists>pre c1 r1 c2 r2 post. s = pre @ c1 @ r1 @ [58] @ c2 @ r2 @ post
        \<and> letter_run c1 \<and> digit_run r1 \<and> letter_run c2 \<and> digit_run r2)"

subsection \<open>The shape of the authorization header\<close>

text \<open>\<open>Bearer <token>\<close>: the word \<open>Bearer\<close> in any letter case, white space, and a
  non-empty token without line terminators.\<close>

definition bearer_shape :: "string \<Rightarrow> string \<Rightarrow> bool" where
  "bearer_shape header tok =
     (\<exists>w ws. header = w @ ws @ tok \<and> map toLowerCase_char w = ''bearer''
        \<and> ws \<noteq> [] \<and> list_all is_space ws \<and> tok \<noteq> [] \<and> single_line tok)"

section \<open>Sample environments\<close>

definition sheet_of :: "int \<Rightarrow> string \<Rightarrow> sheet" where
  "sheet_of i t = \<lparr>properties = Some \<lparr>properties_sheetId = i, properties_title = t\<rparr>\<rparr>"

text \<open>A service that answers every metadata request with the given sheets, every other
  request with an empty payload.\<close>

definition service_with :: "sheet list option \<Rightarrow> service" where
  "service_with ss =
     \<lparr>answer_metadata = (\<lambda>c. Inr \<lparr>status = 200, data = \<lparr>sheets = ss\<rparr>\<rparr>),
      answer_json = (\<lambda>c. Inr \<lparr>status = 200, data = JObj []\<rparr>),
      answer_bytes = (\<lambda>c. Inr \<lparr>status = 200, data = []\<rparr>)\<rparr>"

text \<open>A service whose every request fails with the given message.\<close>

definition failing_service :: "string \<Rightarrow> service" where
  "failing_service msg =
     \<lparr>answer_metadata = (\<lambda>c. Inl (Error msg)),
      answer_json = (\<lambda>c. Inl (Error msg)),
      answer_bytes = (\<lambda>c. Inl (Error msg))\<rparr>"

definition sample_sheets :: "sheet list" where
  "sample_sheets =
     [sheet_of 0 ''Sheet1'', \<lparr>properties = None\<rparr>, sheet_of 7 ''My Sheet'',
      sheet_of 8 ''Sheet1'', sheet_of 9 [CHR ''a'', CHR 0x0A, CHR ''b'']]"

definition sample_service :: service where
  "sample_service = service_with (Some sample_sheets)"

text \<open>A platform whose base64 decoder yields a buffer of the given length, and whose
  inherited members answer as \<^verbatim>\<open>Object.prototype.toString\<close> does when it is called
  without a receiver.\<close>

definition platform_decoding :: "nat \<Rightarrow> platform" where
  "platform_decoding n =
     \<lparr>buffer_from_base64 = (\<lambda>v. Inr (replicate n 0)),
      buffer_to_base64 = (\<lambda>b. []),
      call_prototype_member = (\<lambda>k a. Inr (JStr ''[object Undefined]''))\<rparr>"

definition sample_request :: "string option \<Rightarrow> string option \<Rightarrow> request" where
  "sample_request auth name =
     \<lparr>header_authorization = auth, body_name = name, body_args = None\<rparr>"

section \<open>The column codec\<close>

subsection \<open>Numbers below \<open>2 ^ 53\<close> are exact\<close>

lemma excess_bits_small: "a < 2 ^ 53 \<Longrightarrow> excess_bits a = 0"
  by (simp add: excess_bits.simps)

lemma round_magnitude_small: "a < 2 ^ 53 \<Longrightarrow> round_magnitude a = a"
  by (simp add: round_magnitude_def excess_bits_small Let_def)

lemma to_number_small:
  assumes "\<bar>x\<bar> < 2 ^ 53"
  shows "to_number x = Fin x"
proof -
  from assms have r: "round_magnitude \<bar>x\<bar> = \<bar>x\<bar>" by (rule round_magnitude_small)
  have "(2::int) ^ 53 \<le> 2 ^ 1024" by (rule power_increasing) simp_all
  with assms have "\<not> 2 ^ 1024 \<le> \<bar>x\<bar>" by linarith
  then show ?thesis unfolding to_number_def r Let_def by (simp only: if_False) simp
qed

subsection \<open>Letters and digits\<close>

lemma alphabet_codes: "alphabet = [65..<91]"
  by (simp add: alphabet_def units_def upt_rec)

lemma numerals_codes: "numerals = [48..<58]"
  by (simp add: numerals_def units_def upt_rec)

lemma alphabet_positions:
  "list_all (\<lambda>c. letter_position c = int c - 64) alphabet"
  by (simp add: alphabet_def units_def letter_position_def)

lemma numerals_values:
  "list_all (\<lambda>c. digit_value c = int c - 48) numerals"
  by (simp add: numerals_def units_def digit_value_def)

lemma letter_position_code: "upper_letter c \<Longrightarrow> letter_position c = int c - 64"
proof -
  assume "upper_letter c"
  then have "c \<in> {65..<91}" by (simp add: upper_letter_def)
  then have "c \<in> set alphabet" by (simp only: alphabet_codes set_upt)
  with alphabet_positions show ?thesis by (simp only: list_all_iff)
qed

lemma digit_value_code: "decimal_digit c \<Longrightarrow> digit_value c = int c - 48"
proof -
  assume "decimal_digit c"
  then have "c \<in> {48..<58}" by (simp add: decimal_digit_def)
  then have "c \<in> set numerals" by (simp only: numerals_codes set_upt)
  with numerals_values show ?thesis by (simp only: list_all_iff)
qed

lemma letter_position_range:
  "upper_letter c \<Longrightarrow> 1 \<le> letter_position c \<and> letter_position c \<le> 26"
  by (simp add: letter_position_code) (simp add: upper_letter_def)

subsection \<open>The loop in exact arithmetic\<close>

text \<open>The loop of columnLettersToIndex on integers, started from any accumulator.\<close>

lemma loop_value:
  "list_all upper_letter s \<Longrightarrow>
   foldl (\<lambda>index u. index * 26 + (int u - 64)) acc s
     = acc * 26 ^ length s + bijective_base26 s"
proof (induction s arbitrary: acc)
  case Nil
  show ?case by simp
next
  case (Cons c cs)
  let ?f = "\<lambda>index u. index * 26 + (int u - 64)"
  from Cons.prems have c: "upper_letter c" and cs: "list_all upper_letter cs" by simp_all
  have "foldl ?f acc (c # cs) = foldl ?f (acc * 26 + (int c - 64)) cs"
    by simp
  also have "\<dots> = (acc * 26 + (int c - 64)) * 26 ^ length cs + bijective_base26 cs"
    by (rule Cons.IH[OF cs])
  also have "\<dots> = acc * 26 ^ length (c # cs) + bijective_base26 (c # cs)"
    by (simp add: letter_position_code[OF c] algebra_simps)
  finally show ?case .
qed

lemma bijective_base26_loop:
  "list_all upper_letter s \<Longrightarrow>
   bijective_base26 s = foldl (\<lambda>index u. index * 26 + (int u - 64)) 0 s"
  by (simp add: loop_value)

lemma bijective_base26_snoc:
  assumes "list_all upper_letter s" and "upper_letter c"
  shows "bijective_base26 (s @ [c]) = bijective_base26 s * 26 + (int c - 64)"
proof -
  from assms have "list_all upper_letter (s @ [c])" by simp
  then show ?thesis by (simp add: bijective_base26_loop assms(1))
qed

lemma bijective_base26_nonnegative: "list_all upper_letter s \<Longrightarrow> 0 \<le> bijective_base26 s"
proof (induction s rule: rev_induct)
  case Nil
  show ?case by simp
next
  case (snoc c s)
  then have "0 \<le> bijective_base26 s" and "upper_letter c" and "list_all upper_letter s"
    by simp_all
  then show ?case by (simp add: bijective_base26_snoc upper_letter_def)
qed

lemma bijective_base26_positive:
  "list_all upper_letter s \<Longrightarrow> s \<noteq> [] \<Longrightarrow> 1 \<le> bijective_base26 s"
proof (induction s rule: rev_induct)
  case Nil
  then show ?case by simp
next
  case (snoc c s)
  then have c: "upper_letter c" and s: "list_all upper_letter s" by simp_all
  from bijective_base26_nonnegative[OF s] c show ?case
    by (simp add: bijective_base26_snoc[OF s c] upper_letter_def)
qed

text \<open>Bounds for names of a given length.\<close>

lemma bijective_base26_bounds:
  "list_all upper_letter s \<Longrightarrow>
   26 ^ length s - 1 \<le> 25 * bijective_base26 s
   \<and> 25 * bijective_base26 s \<le> 26 * (26 ^ length s - 1)"
proof (induction s rule: rev_induct)
  case Nil
  show ?case by simp
next
  case (snoc c s)
  from snoc.prems have c: "upper_letter c" and s: "list_all upper_letter s" by simp_all
  from c have k: "1 \<le> int c - 64" "int c - 64 \<le> 26" by (simp_all add: upper_letter_def)
  note step = bijective_base26_snoc[OF s c]
  from snoc.IH[OF s] have lo: "26 ^ length s - 1 \<le> 25 * bijective_base26 s"
    and hi: "25 * bijective_base26 s \<le> 26 * (26 ^ length s - 1)" by simp_all
  have "26 ^ length (s @ [c]) - 1 \<le> 25 * bijective_base26 (s @ [c])"
    unfolding step using lo k(1) by simp
  moreover have "25 * bijective_base26 (s @ [c]) \<le> 26 * (26 ^ length (s @ [c]) - 1)"
    unfolding step using hi k(2) by simp
  ultimately show ?case by blast
qed

lemma bijective_base26_eleven:
  assumes "list_all upper_letter s" and "length s \<le> 11"
  shows "bijective_base26 s < 2 ^ 53 - 1"
proof -
  from bijective_base26_bounds[OF assms(1)]
  have hi: "25 * bijective_base26 s \<le> 26 * (26 ^ length s - 1)" by simp
  from assms(2) have "(26::int) ^ length s \<le> 26 ^ 11"
    by (intro power_increasing) simp_all
  with hi have "25 * bijective_base26 s \<le> 26 * (26 ^ 11 - 1)" by simp
  then show ?thesis by simp
qed

subsection \<open>The loop in doubles\<close>

lemma loop_exact:
  "list_all upper_letter s \<Longrightarrow> bijective_base26 s < 2 ^ 53 \<Longrightarrow>
   foldl (\<lambda>index u. plus_int (times26 index) (int u - 64)) (Fin 0) s
     = Fin (bijective_base26 s)"
proof (induction s rule: rev_induct)
  case Nil
  show ?case by simp
next
  case (snoc c s)
  from snoc.prems(1) have c: "upper_letter c" and s: "list_all upper_letter s" by simp_all
  from c have k: "1 \<le> int c - 64" "int c - 64 \<le> 26" by (simp_all add: upper_letter_def)
  note step = bijective_base26_snoc[OF s c]
  note nn = bijective_base26_nonnegative[OF s]
  from snoc.prems(2) have top: "bijective_base26 s * 26 + (int c - 64) < 2 ^ 53"
    by (simp only: step)
  with k nn have below: "bijective_base26 s < 2 ^ 53" by simp
  from top k nn have a: "\<bar>bijective_base26 s * 26\<bar> < 2 ^ 53" by simp
  from top k nn have b: "\<bar>bijective_base26 s * 26 + (int c - 64)\<bar> < 2 ^ 53" by simp
  have "plus_int (times26 (Fin (bijective_base26 s))) (int c - 64)
          = Fin (bijective_base26 s * 26 + (int c - 64))"
    by (simp add: times26_def plus_int_def to_number_small[OF a] to_number_small[OF b])
  with snoc.IH[OF s below] show ?case by (simp add: step)
qed

lemma columnLettersToIndex_exact:
  assumes "list_all upper_letter s" and "bijective_base26 s < 2 ^ 53"
  shows "columnLettersToIndex s = Fin (bijective_base26 s - 1)"
proof -
  from bijective_base26_nonnegative[OF assms(1)] assms(2)
  have "\<bar>bijective_base26 s - 1\<bar> < 2 ^ 53" by simp
  then show ?thesis
    unfolding columnLettersToIndex_def loop_exact[OF assms]
    by (simp add: plus_int_def to_number_small)
qed

lemma plus_one_exact:
  assumes "list_all upper_letter s" and "bijective_base26 s < 2 ^ 53 - 1"
  shows "plus_int (columnLettersToIndex s) 1 = Fin (bijective_base26 s - 1 + 1)"
proof -
  from assms(2) have below: "bijective_base26 s < 2 ^ 53" by simp
  from bijective_base26_nonnegative[OF assms(1)] assms(2)
  have "\<bar>bijective_base26 s - 1 + 1\<bar> < 2 ^ 53" by simp
  then show ?thesis
    by (simp only: columnLettersToIndex_exact[OF assms(1) below] plus_int_def number.case
        to_number_small)
qed

lemma sample_letters:
  "letter_run (units ''A'')" "letter_run (units ''Z'')" "letter_run (units ''AA'')"
  "letter_run (units ''AZ'')" "letter_run (units ''BA'')" "letter_run (units ''AB'')"
  "letter_run (units ''B'')" "letter_run (units ''ZZ'')" "letter_run (units ''AAA'')"
  "letter_run (units ''ZZZ'')"
  by (simp_all add: letter_run_def units_def upper_letter_def)

lemma sample_columns:
  "columnLettersToIndex (units ''A'') = Fin 0" "columnLettersToIndex (units ''Z'') = Fin 25"
  "columnLettersToIndex (units ''AA'') = Fin 26" "columnLettersToIndex (units ''AZ'') = Fin 51"
  "columnLettersToIndex (units ''BA'') = Fin 52" "columnLettersToIndex (units ''AB'') = Fin 27"
  "columnLettersToIndex (units ''B'') = Fin 1" "columnLettersToIndex (units ''ZZZ'') = Fin 18277"
  by (simp_all add: columnLettersToIndex_def units_def times26_def plus_int_def to_number_small)

text \<open>A name of twelve letters: the accumulator passes \<open>2 ^ 53\<close> at the last letter and
  is rounded.\<close>

lemma twelve_Z_exact: "bijective_base26 (replicate 12 90) - 1 = 99246114928149461"
  by code_simp

lemma twelve_Z_double: "columnLettersToIndex (replicate 12 90) = Fin 99246114928149472"
  by code_simp

text \<open>
  Claim C2, as amended. For every non-empty sequence of at most 11 of the letters A to Z,
  \<open>columnLettersToIndex\<close> is the bijective base-26 value of the sequence minus one, and
  is not negative; \<open>A\<close> gives 0, \<open>Z\<close> 25, \<open>AA\<close> 26, \<open>AZ\<close> 51 and \<open>BA\<close> 52.
\<close>

theorem columnLettersToIndex_bijective_base26:
  "(letter_run s \<and> length s \<le> 11 \<longrightarrow>
      columnLettersToIndex s = Fin (bijective_base26 s - 1) \<and> 0 \<le> bijective_base26 s - 1)
   \<and> columnLettersToIndex (units ''A'') = Fin 0
   \<and> columnLettersToIndex (units ''Z'') = Fin 25
   \<and> columnLettersToIndex (units ''AA'') = Fin 26
   \<and> columnLettersToIndex (units ''AZ'') = Fin 51
   \<and> columnLettersToIndex (units ''BA'') = Fin 52"
proof -
  have general: "columnLettersToIndex s = Fin (bijective_base26 s - 1)
      \<and> 0 \<le> bijective_base26 s - 1"
    if "letter_run s \<and> length s \<le> 11"
  proof -
    from that have az: "list_all upper_letter s" and ne: "s \<noteq> []" and len: "length s \<le> 11"
      by (simp_all add: letter_run_def)
    from bijective_base26_eleven[OF az len] have "bijective_base26 s < 2 ^ 53" by simp
    from columnLettersToIndex_exact[OF az this] bijective_base26_positive[OF az ne]
    show ?thesis by simp
  qed
  from general sample_columns(1-5) show ?thesis by blast
qed

theorem columnLettersToIndex_bijective_base26_witness:
  "letter_run (units ''ZZZ'') \<and> length (units ''ZZZ'') \<le> 11
   \<and> columnLettersToIndex (units ''ZZZ'') = Fin (bijective_base26 (units ''ZZZ'') - 1)
   \<and> bijective_base26 (units ''ZZZ'') = 18278
   \<and> columnLettersToIndex (units ''ZZZ'') = Fin 18277"
proof -
  have len: "length (units ''ZZZ'') \<le> 11" by (simp add: units_def)
  from columnLettersToIndex_bijective_base26[of "units ''ZZZ''"] sample_letters(10) len
    sample_columns(8)
  show ?thesis by simp
qed

text \<open>The claim as stated fails from twelve letters on. For twelve times \<open>Z\<close> the
  bijective base-26 value minus one is 99246114928149461, and the function returns
  99246114928149472.\<close>

theorem twelve_letters_counterexample:
  "letter_run (replicate 12 90)
   \<and> replicate 12 90 = units ''ZZZZZZZZZZZZ''
   \<and> bijective_base26 (replicate 12 90) - 1 = 99246114928149461
   \<and> columnLettersToIndex (replicate 12 90) = Fin 99246114928149472
   \<and> columnLettersToIndex (replicate 12 90) \<noteq> Fin (bijective_base26 (replicate 12 90) - 1)"
proof -
  have l: "letter_run (replicate 12 90)"
    by (simp add: letter_run_def upper_letter_def list_all_iff)
  have u: "replicate 12 90 = units ''ZZZZZZZZZZZZ''"
    by (simp add: units_def numeral_eq_Suc)
  from l u twelve_Z_exact twelve_Z_double show ?thesis by simp
qed

subsection \<open>Monotonicity\<close>

lemma bijective_base26_dictionary:
  "length s = length t \<Longrightarrow> list_all upper_letter s \<Longrightarrow> list_all upper_letter t \<Longrightarrow>
   dictionary_before s t \<Longrightarrow> bijective_base26 s < bijective_base26 t"
proof (induction s t rule: list_induct2)
  case Nil
  then show ?case by simp
next
  case (Cons a s b t)
  then have az: "upper_letter a" "upper_letter b" "list_all upper_letter s"
    "list_all upper_letter t" by simp_all
  from Cons.prems(3) consider
      (head) "letter_position a < letter_position b"
    | (tail) "a = b" "dictionary_before s t"
    by auto
  then show ?case
  proof cases
    case head
    then have "letter_position a + 1 \<le> letter_position b" by simp
    then have "(letter_position a + 1) * 26 ^ length s \<le> letter_position b * 26 ^ length s"
      by (intro mult_right_mono) simp_all
    then have m: "letter_position a * 26 ^ length s + 26 ^ length s
        \<le> letter_position b * 26 ^ length t"
      by (simp add: algebra_simps Cons.hyps)
    from bijective_base26_bounds[OF az(3)]
    have hi: "25 * bijective_base26 s \<le> 26 * (26 ^ length s - 1)" by simp
    from bijective_base26_bounds[OF az(4)]
    have lo: "26 ^ length s - 1 \<le> 25 * bijective_base26 t" by (simp add: Cons.hyps)
    define X :: int where "X = 26 ^ length s"
    from hi lo have "25 * bijective_base26 s \<le> 26 * (X - 1)" "X - 1 \<le> 25 * bijective_base26 t"
      by (simp_all only: X_def)
    then have "bijective_base26 s < X + bijective_base26 t" by arith
    then have "bijective_base26 s < 26 ^ length s + bijective_base26 t" by (simp only: X_def)
    with m show ?thesis by simp
  next
    case tail
    with Cons.IH[OF az(3) az(4)] Cons.hyps show ?thesis by simp
  qed
qed

lemma shorter_before:
  assumes "list_all upper_letter s" and "list_all upper_letter t" and "length s < length t"
  shows "bijective_base26 s < bijective_base26 t"
proof -
  from bijective_base26_bounds[OF assms(1)]
  have hi: "25 * bijective_base26 s \<le> 26 * (26 ^ length s - 1)" by simp
  from bijective_base26_bounds[OF assms(2)]
  have lo: "26 ^ length t - 1 \<le> 25 * bijective_base26 t" by simp
  from assms(3) have "Suc (length s) \<le> length t" by simp
  then have "(26::int) ^ Suc (length s) \<le> 26 ^ length t"
    by (intro power_increasing) simp_all
  then have "26 * (26 ^ length s - 1) < (26::int) ^ length t - 1" by simp
  with hi lo show ?thesis by linarith
qed

text \<open>
  Claim C5. On letter sequences of length 1 to 3, \<open>columnLettersToIndex\<close> is strictly
  increasing in the order of spreadsheet columns: an earlier column has a smaller index.
\<close>

theorem columnLettersToIndex_strictly_increasing:
  assumes "list_all upper_letter s1" and "list_all upper_letter s2"
    and "1 \<le> length s1" and "length s1 \<le> 3"
    and "1 \<le> length s2" and "length s2 \<le> 3"
    and "column_before s1 s2"
  shows "\<exists>a b. columnLettersToIndex s1 = Fin a \<and> columnLettersToIndex s2 = Fin b \<and> a < b"
proof -
  from assms(7) consider
      (shorter) "length s1 < length s2"
    | (same) "length s1 = length s2" "dictionary_before s1 s2"
    by (auto simp: column_before_def)
  then have less: "bijective_base26 s1 < bijective_base26 s2"
  proof cases
    case shorter
    with assms(1,2) show ?thesis by (rule shorter_before)
  next
    case same
    from bijective_base26_dictionary[OF same(1) assms(1,2) same(2)] show ?thesis .
  qed
  from assms(4) have "length s1 \<le> 11" by simp
  from bijective_base26_eleven[OF assms(1) this] have "bijective_base26 s1 < 2 ^ 53" by simp
  from columnLettersToIndex_exact[OF assms(1) this]
  have e1: "columnLettersToIndex s1 = Fin (bijective_base26 s1 - 1)" .
  from assms(6) have "length s2 \<le> 11" by simp
  from bijective_base26_eleven[OF assms(2) this] have "bijective_base26 s2 < 2 ^ 53" by simp
  from columnLettersToIndex_exact[OF assms(2) this]
  have e2: "columnLettersToIndex s2 = Fin (bijective_base26 s2 - 1)" .
  from e1 e2 less show ?thesis by simp
qed

theorem columnLettersToIndex_strictly_increasing_witness:
  "column_before (units ''Z'') (units ''AA'')
   \<and> (\<exists>a b. columnLettersToIndex (units ''Z'') = Fin a
          \<and> columnLettersToIndex (units ''AA'') = Fin b \<and> a < b)
   \<and> column_before (units ''AZ'') (units ''BA'')
   \<and> (\<exists>a b. columnLettersToIndex (units ''AZ'') = Fin a
          \<and> columnLettersToIndex (units ''BA'') = Fin b \<and> a < b)
   \<and> column_before (units ''ZZ'') (units ''AAA'')
   \<and> (\<exists>a b. columnLettersToIndex (units ''ZZ'') = Fin a
          \<and> columnLettersToIndex (units ''AAA'') = Fin b \<and> a < b)"
proof -
  have az: "list_all upper_letter (units ''Z'')" "list_all upper_letter (units ''AA'')"
    "list_all upper_letter (units ''AZ'')" "list_all upper_letter (units ''BA'')"
    "list_all upper_letter (units ''ZZ'')" "list_all upper_letter (units ''AAA'')"
    by (simp_all add: units_def upper_letter_def)
  have b1: "column_before (units ''Z'') (units ''AA'')"
    and b3: "column_before (units ''ZZ'') (units ''AAA'')"
    by (simp_all add: column_before_def units_def)
  have b2: "column_before (units ''AZ'') (units ''BA'')"
    by (simp add: column_before_def letter_position_def alphabet_def units_def)
  have len: "1 \<le> length (units ''Z'')" "length (units ''Z'') \<le> 3"
    "1 \<le> length (units ''AA'')" "length (units ''AA'') \<le> 3"
    "1 \<le> length (units ''AZ'')" "length (units ''AZ'') \<le> 3"
    "1 \<le> length (units ''BA'')" "length (units ''BA'') \<le> 3"
    "1 \<le> length (units ''ZZ'')" "length (units ''ZZ'') \<le> 3"
    "1 \<le> length (units ''AAA'')" "length (units ''AAA'') \<le> 3"
    by (simp_all add: units_def)
  note w1 = columnLettersToIndex_strictly_increasing[OF az(1) az(2) len(1-4) b1]
  note w2 = columnLettersToIndex_strictly_increasing[OF az(3) az(4) len(5-8) b2]
  note w3 = columnLettersToIndex_strictly_increasing[OF az(5) az(6) len(9-12) b3]
  from w1 w2 w3 b1 b2 b3 show ?thesis by (intro conjI)
qed

section \<open>The range resolver\<close>

subsection \<open>Splitting at the separator\<close>

lemma split_not_empty: "split sep s \<noteq> []"
  by (induction s) (auto split: list.splits)

lemma split_head: "\<exists>ps. split sep s = takeWhile (\<lambda>c. c \<noteq> sep) s # ps"
proof (induction s)
  case Nil
  show ?case by simp
next
  case (Cons c cs)
  then obtain ps where "split sep cs = takeWhile (\<lambda>c. c \<noteq> sep) cs # ps" by blast
  then show ?case by simp
qed

lemma split_without_separator: "sep \<notin> set s \<Longrightarrow> split sep s = [s]"
  by (induction s) auto

lemma split_at_first: "sep \<notin> set a \<Longrightarrow> split sep (a @ sep # b) = a # split sep b"
  by (induction a) auto

subsection \<open>The steps after the split\<close>

lemma bind_io_result:
  "m = (cs, Inr x) \<Longrightarrow> bind_io m f = (cs @ fst (f x), snd (f x))"
  by (simp add: bind_io_def split: prod.splits)

lemma bind_io_failure: "m = (cs, Inl e) \<Longrightarrow> bind_io m f = (cs, Inl e)"
  by (simp add: bind_io_def)

text \<open>What the resolver does with a reference that has a separator: the sheet part is the
  text before the first separator, the span part the text up to the next one.\<close>

lemma parse_parts:
  assumes "CHR ''!'' \<notin> set sheetPart"
  shows "parseA1ToGridRange S c sid (JStr (sheetPart @ CHR ''!'' # rest)) =
     (if takeWhile (\<lambda>x. x \<noteq> CHR ''!'') rest = [] then throw_io (Error sheet_name_message)
      else bind_io (getSheetIdByName S c sid (JStr (strip_quotes sheetPart)))
             (\<lambda>i. case match_range (toUpperCase (takeWhile (\<lambda>x. x \<noteq> CHR ''!'') rest)) of
                     None \<Rightarrow> throw_io (Error ''range must be like A1:B2'')
                   | Some (c1, r1, c2, r2) \<Rightarrow>
                       return_io
                         \<lparr>sheetId = i, startRowIndex = plus_int (parseInt r1) (- 1),
                          endRowIndex = parseInt r2,
                          startColumnIndex = columnLettersToIndex c1,
                          endColumnIndex = plus_int (columnLettersToIndex c2) 1\<rparr>))"
proof -
  obtain ps where "split CHR ''!'' rest = takeWhile (\<lambda>x. x \<noteq> CHR ''!'') rest # ps"
    using split_head by blast
  with split_at_first[OF assms, of rest]
  have "split CHR ''!'' (sheetPart @ CHR ''!'' # rest)
          = sheetPart # takeWhile (\<lambda>x. x \<noteq> CHR ''!'') rest # ps"
    by simp
  then show ?thesis by (simp add: parseA1ToGridRange_def)
qed

lemma parse_without_separator:
  assumes "CHR ''!'' \<notin> set a1"
  shows "parseA1ToGridRange S c sid (JStr a1) = ([], Inl (Error sheet_name_message))"
  by (simp add: parseA1ToGridRange_def split_without_separator[OF assms] throw_io_def)

subsection \<open>The pattern on a well-formed span\<close>

lemma digit_not_letter: "decimal_digit x \<Longrightarrow> \<not> upper_letter x"
  by (simp add: decimal_digit_def upper_letter_def)

lemma colon_class: "\<not> upper_letter 58" "\<not> decimal_digit 58"
  by (simp_all add: upper_letter_def decimal_digit_def)

lemma run_then_stop:
  assumes "list_all P xs" and "ys = [] \<or> \<not> P (hd ys)"
  shows "takeWhile P (xs @ ys) = xs" and "dropWhile P (xs @ ys) = ys"
proof -
  from assms(2) have t: "takeWhile P ys = []" and d: "dropWhile P ys = ys"
    by (cases ys; auto)+
  from assms(1) have all: "\<And>x. x \<in> set xs \<Longrightarrow> P x" by (simp add: list_all_iff)
  show "takeWhile P (xs @ ys) = xs" using takeWhile_append2[of xs P ys] all t by simp
  show "dropWhile P (xs @ ys) = ys" using dropWhile_append2[of xs P ys] all d by simp
qed

lemma match_here_complete:
  assumes "letter_run c1" and "digit_run r1" and "letter_run c2" and "digit_run r2"
  shows "match_here (c1 @ r1 @ [58] @ c2 @ r2 @ post)
           = Some (c1, r1, c2, r2 @ takeWhile decimal_digit post)"
proof -
  from assms have ne: "c1 \<noteq> []" "r1 \<noteq> []" "c2 \<noteq> []" "r2 \<noteq> []"
    and cl: "list_all upper_letter c1" "list_all decimal_digit r1"
      "list_all upper_letter c2" "list_all decimal_digit r2"
    by (simp_all add: letter_run_def digit_run_def)
  from ne(2) cl(2) have r1_hd: "\<not> upper_letter (hd (r1 @ [58] @ c2 @ r2 @ post))"
    by (cases r1) (auto dest: digit_not_letter)
  from ne(4) cl(4) have r2_hd: "\<not> upper_letter (hd (r2 @ post))"
    by (cases r2) (auto dest: digit_not_letter)
  have s1: "takeWhile upper_letter (c1 @ (r1 @ [58] @ c2 @ r2 @ post)) = c1"
    "dropWhile upper_letter (c1 @ (r1 @ [58] @ c2 @ r2 @ post)) = r1 @ [58] @ c2 @ r2 @ post"
    using run_then_stop[OF cl(1), of "r1 @ [58] @ c2 @ r2 @ post"] r1_hd by simp_all
  have s2: "takeWhile decimal_digit (r1 @ ([58] @ c2 @ r2 @ post)) = r1"
    "dropWhile decimal_digit (r1 @ ([58] @ c2 @ r2 @ post)) = [58] @ c2 @ r2 @ post"
    using run_then_stop[OF cl(2), of "[58] @ c2 @ r2 @ post"] colon_class by simp_all
  have s3: "takeWhile upper_letter (c2 @ (r2 @ post)) = c2"
    "dropWhile upper_letter (c2 @ (r2 @ post)) = r2 @ post"
    using run_then_stop[OF cl(3), of "r2 @ post"] r2_hd ne(4) by simp_all
  from cl(4) have s4: "takeWhile decimal_digit (r2 @ post) = r2 @ takeWhile decimal_digit post"
    by (intro takeWhile_append2) (simp add: list_all_iff)
  show ?thesis
    unfolding match_here_def
    by (simp only: append_assoc s1 s2 Let_def) (simp add: ne s3 s4)
qed

lemma match_here_span:
  assumes "letter_run c1" and "digit_run r1" and "letter_run c2" and "digit_run r2"
  shows "match_here (c1 @ r1 @ [58] @ c2 @ r2) = Some (c1, r1, c2, r2)"
  using match_here_complete[OF assms, of "[]"] by simp

lemma match_range_span:
  assumes "letter_run c1" and "digit_run r1" and "letter_run c2" and "digit_run r2"
  shows "match_range (c1 @ r1 @ [58] @ c2 @ r2) = Some (c1, r1, c2, r2)"
proof -
  from assms(1) obtain x xs where "c1 @ r1 @ [58] @ c2 @ r2 = x # xs"
    by (cases c1) (auto simp: letter_run_def)
  with match_here_span[OF assms] show ?thesis by (metis match_range.simps(2) option.simps(5))
qed

text \<open>Upper-casing leaves the letters A to Z, the digits and the colon as they are.\<close>

lemma toUpperCase_append: "toUpperCase (s @ t) = toUpperCase s @ toUpperCase t"
  by (simp add: toUpperCase_def)

lemma toUpperCase_letters: "list_all upper_letter (units s) \<Longrightarrow> toUpperCase s = units s"
  unfolding toUpperCase_def units_def
  by (induction s) (auto simp: toUpperCase_char_def upper_letter_def Let_def)

lemma toUpperCase_digits: "list_all decimal_digit (units s) \<Longrightarrow> toUpperCase s = units s"
  unfolding toUpperCase_def units_def
  by (induction s) (auto simp: toUpperCase_char_def decimal_digit_def Let_def)

lemma toUpperCase_colon: "toUpperCase '':'' = [58]"
  by (simp add: toUpperCase_def toUpperCase_char_def)

lemma toUpperCase_span:
  assumes "letters c1" and "digits r1" and "letters c2" and "digits r2"
  shows "toUpperCase (span_of c1 r1 c2 r2) = units c1 @ units r1 @ [58] @ units c2 @ units r2"
proof -
  from assms have u: "toUpperCase c1 = units c1" "toUpperCase r1 = units r1"
    "toUpperCase c2 = units c2" "toUpperCase r2 = units r2"
    by (simp_all add: toUpperCase_letters toUpperCase_digits letters_def digits_def
        letter_run_def digit_run_def)
  show ?thesis
    by (simp only: span_of_def toUpperCase_append toUpperCase_colon u)
qed

lemma class_without_separator:
  "list_all upper_letter (units s) \<or> list_all decimal_digit (units s) \<Longrightarrow> CHR ''!'' \<notin> set s"
  unfolding units_def
  by (induction s) (auto simp: upper_letter_def decimal_digit_def)

lemma span_without_separator:
  assumes "letters c1" and "digits r1" and "letters c2" and "digits r2"
  shows "takeWhile (\<lambda>x. x \<noteq> CHR ''!'') (span_of c1 r1 c2 r2) = span_of c1 r1 c2 r2"
    and "span_of c1 r1 c2 r2 \<noteq> []"
proof -
  from assms have "CHR ''!'' \<notin> set c1" "CHR ''!'' \<notin> set r1" "CHR ''!'' \<notin> set c2"
    "CHR ''!'' \<notin> set r2"
    by (simp_all add: class_without_separator letters_def digits_def letter_run_def
        digit_run_def)
  then have "\<forall>x\<in>set (span_of c1 r1 c2 r2). x \<noteq> CHR ''!''"
    by (auto simp: span_of_def)
  then show "takeWhile (\<lambda>x. x \<noteq> CHR ''!'') (span_of c1 r1 c2 r2) = span_of c1 r1 c2 r2"
    by (simp add: takeWhile_eq_all_conv)
  from assms(1) show "span_of c1 r1 c2 r2 \<noteq> []"
    by (auto simp: letters_def letter_run_def span_of_def units_def)
qed

text \<open>The grid range of a reference whose span is letters, digits, colon, letters,
  digits, once the sheet part resolves.\<close>

lemma parse_span:
  assumes "CHR ''!'' \<notin> set sheetPart"
    and "letters c1" and "digits r1" and "letters c2" and "digits r2"
    and "getSheetIdByName S c sid (JStr (strip_quotes sheetPart)) = (calls, Inr i)"
  shows "parseA1ToGridRange S c sid (JStr (sheetPart @ ''!'' @ span_of c1 r1 c2 r2)) =
     (calls, Inr \<lparr>sheetId = i, startRowIndex = plus_int (parseInt (units r1)) (- 1),
                  endRowIndex = parseInt (units r2),
                  startColumnIndex = columnLettersToIndex (units c1),
                  endColumnIndex = plus_int (columnLettersToIndex (units c2)) 1\<rparr>)"
proof -
  note sp = span_without_separator[OF assms(2-5)]
  from assms(2-5) have runs: "letter_run (units c1)" "digit_run (units r1)"
    "letter_run (units c2)" "digit_run (units r2)"
    by (simp_all add: letters_def digits_def)
  have "parseA1ToGridRange S c sid (JStr (sheetPart @ CHR ''!'' # span_of c1 r1 c2 r2)) =
     (calls, Inr \<lparr>sheetId = i, startRowIndex = plus_int (parseInt (units r1)) (- 1),
                  endRowIndex = parseInt (units r2),
                  startColumnIndex = columnLettersToIndex (units c1),
                  endColumnIndex = plus_int (columnLettersToIndex (units c2)) 1\<rparr>)"
    unfolding parse_parts[OF assms(1)]
    by (simp add: sp toUpperCase_span[OF assms(2-5)] match_range_span[OF runs, simplified]
        bind_io_result[OF assms(6)] return_io_def)
  then show ?thesis by simp
qed

subsection \<open>Row numbers\<close>

lemma decimal_loop:
  "list_all decimal_digit r \<Longrightarrow>
   foldl (\<lambda>n u. n * 10 + (int u - 48)) acc r = acc * 10 ^ length r + decimal_value r"
proof (induction r arbitrary: acc)
  case Nil
  show ?case by simp
next
  case (Cons d ds)
  let ?f = "\<lambda>n u. n * 10 + (int u - 48)"
  from Cons.prems have d: "decimal_digit d" and ds: "list_all decimal_digit ds" by simp_all
  have "foldl ?f acc (d # ds) = foldl ?f (acc * 10 + (int d - 48)) ds"
    by simp
  also have "\<dots> = (acc * 10 + (int d - 48)) * 10 ^ length ds + decimal_value ds"
    by (rule Cons.IH[OF ds])
  also have "\<dots> = acc * 10 ^ length (d # ds) + decimal_value (d # ds)"
    by (simp add: digit_value_code[OF d] algebra_simps)
  finally show ?case .
qed

lemma decimal_value_nonnegative: "list_all decimal_digit r \<Longrightarrow> 0 \<le> decimal_value r"
proof (induction r)
  case Nil
  show ?case by simp
next
  case (Cons d ds)
  then have "0 \<le> decimal_value ds" and "decimal_digit d" by simp_all
  then show ?case by (simp add: digit_value_code decimal_digit_def)
qed

text \<open>\<open>parseInt\<close> is the double nearest to the number that the digits denote, and is
  that number when it is below \<open>2 ^ 53\<close>.\<close>

lemma parseInt_decimal_value:
  "list_all decimal_digit r \<Longrightarrow> parseInt r = to_number (decimal_value r)"
  by (simp add: parseInt_def decimal_loop)

lemma parseInt_exact:
  assumes "list_all decimal_digit r" and "decimal_value r < 2 ^ 53"
  shows "parseInt r = Fin (decimal_value r)"
    and "plus_int (parseInt r) (- 1) = Fin (decimal_value r - 1)"
proof -
  from decimal_value_nonnegative[OF assms(1)] assms(2)
  have a: "\<bar>decimal_value r\<bar> < 2 ^ 53" and b: "\<bar>decimal_value r - 1\<bar> < 2 ^ 53" by simp_all
  show p: "parseInt r = Fin (decimal_value r)"
    by (simp only: parseInt_decimal_value[OF assms(1)] to_number_small[OF a])
  from to_number_small[OF b] show "plus_int (parseInt r) (- 1) = Fin (decimal_value r - 1)"
    by (simp add: p plus_int_def)
qed

text \<open>The grid range when the row numbers are below \<open>2 ^ 53\<close> and the column names have
  at most 11 letters: no operation rounds.\<close>

lemma parse_span_exact:
  assumes "CHR ''!'' \<notin> set sheetPart"
    and "letters c1" and "digits r1" and "letters c2" and "digits r2"
    and "length c1 \<le> 11" and "length c2 \<le> 11"
    and "decimal_value (units r1) < 2 ^ 53" and "decimal_value (units r2) < 2 ^ 53"
    and "getSheetIdByName S c sid (JStr (strip_quotes sheetPart)) = (calls, Inr i)"
  shows "parseA1ToGridRange S c sid (JStr (sheetPart @ ''!'' @ span_of c1 r1 c2 r2)) =
     (calls, Inr \<lparr>sheetId = i, startRowIndex = Fin (decimal_value (units r1) - 1),
                  endRowIndex = Fin (decimal_value (units r2)),
                  startColumnIndex = Fin (bijective_base26 (units c1) - 1),
                  endColumnIndex = Fin (bijective_base26 (units c2) - 1 + 1)\<rparr>)"
proof -
  from assms(2-5) have cl: "list_all upper_letter (units c1)" "list_all decimal_digit (units r1)"
    "list_all upper_letter (units c2)" "list_all decimal_digit (units r2)"
    by (simp_all add: letters_def digits_def letter_run_def digit_run_def)
  from assms(6,7) have len: "length (units c1) \<le> 11" "length (units c2) \<le> 11"
    by (simp_all add: units_def)
  note b1 = bijective_base26_eleven[OF cl(1) len(1)]
  note b2 = bijective_base26_eleven[OF cl(3) len(2)]
  from b1 have "bijective_base26 (units c1) < 2 ^ 53" by simp
  note e1 = columnLettersToIndex_exact[OF cl(1) this]
  note e2 = plus_one_exact[OF cl(3) b2]
  note e3 = parseInt_exact(2)[OF cl(2) assms(8)]
  note e4 = parseInt_exact(1)[OF cl(4) assms(9)]
  show ?thesis
    by (simp only: parse_span[OF assms(1-5) assms(10)] e1 e2 e3 e4)
qed

subsection \<open>Quotes around the sheet name\<close>

lemma strip_quotes_quoted:
  assumes "n \<noteq> []" and "single_line n"
  shows "strip_quotes (quoted n) = n"
proof -
  have "tl (quoted n) = n @ [CHR 0x27]" by (simp add: quoted_def)
  then have "butlast (tl (quoted n)) = n" by simp
  moreover have "hd (quoted n) = CHR 0x27" "last (quoted n) = CHR 0x27"
    by (simp_all add: quoted_def)
  moreover from assms(1) have "3 \<le> length (quoted n)"
    by (cases n) (simp_all add: quoted_def)
  ultimately show ?thesis using assms(2) by (simp add: strip_quotes_def single_line_def)
qed

lemma strip_quotes_plain: "\<not> is_quoted s \<Longrightarrow> strip_quotes s = s"
  by (auto simp: strip_quotes_def is_quoted_def)

lemma quoted_without_separator: "CHR ''!'' \<notin> set n \<Longrightarrow> CHR ''!'' \<notin> set (quoted n)"
  by (simp add: quoted_def)

subsection \<open>Evaluation on the sample spreadsheet\<close>

lemmas resolver_defs =
  parseA1ToGridRange_def strip_quotes_def getSheetIdByName_def send_metadata_def bind_io_def
  return_io_def throw_io_def request_of_def titled_def toUpperCase_def toUpperCase_char_def
  match_here_def upper_letter_def decimal_digit_def is_line_terminator_def charCode_def
  parseInt_def columnLettersToIndex_def times26_def plus_int_def to_number_small quoted_def
  Let_def

lemmas sample_defs =
  sample_service_def service_with_def sample_sheets_def sheet_of_def

lemma sample_lookup:
  "getSheetIdByName sample_service c sid (JStr ''Sheet1'') =
     ([request_of c Spreadsheets_get
         (JObj [(''spreadsheetId'', sid), (''fields'', JStr ''sheets(properties(sheetId,title))'')])],
      Inr 0)"
  by (simp add: resolver_defs sample_defs)

lemma sample_lookup_My_Sheet:
  "getSheetIdByName sample_service c sid (JStr ''My Sheet'') =
     ([request_of c Spreadsheets_get
         (JObj [(''spreadsheetId'', sid), (''fields'', JStr ''sheets(properties(sheetId,title))'')])],
      Inr 7)"
  by (simp add: resolver_defs sample_defs)

lemma sample_Sheet1_A1_B2:
  "snd (parseA1ToGridRange sample_service c sid (JStr ''Sheet1!A1:B2'')) =
     Inr \<lparr>sheetId = 0, startRowIndex = Fin 0, endRowIndex = Fin 2,
          startColumnIndex = Fin 0, endColumnIndex = Fin 2\<rparr>"
  by (simp add: resolver_defs sample_defs)

lemma sample_My_Sheet_C3_C3:
  "snd (parseA1ToGridRange sample_service c sid (JStr (quoted ''My Sheet'' @ ''!C3:C3''))) =
     Inr \<lparr>sheetId = 7, startRowIndex = Fin 2, endRowIndex = Fin 3,
          startColumnIndex = Fin 2, endColumnIndex = Fin 3\<rparr>"
  by (simp add: resolver_defs sample_defs)

lemma sample_Sheet1_B2_A1:
  "snd (parseA1ToGridRange sample_service c sid (JStr ''Sheet1!B2:A1'')) =
     Inr \<lparr>sheetId = 0, startRowIndex = Fin 1, endRowIndex = Fin 1,
          startColumnIndex = Fin 1, endColumnIndex = Fin 1\<rparr>"
  by (simp add: resolver_defs sample_defs)

text \<open>The pattern that strips the quotes does not match across a line terminator: a
  quoted name with a line break keeps its quotes, and is not found.\<close>

lemma sample_line_break_lookup:
  "snd (getSheetIdByName sample_service c sid (JStr [CHR ''a'', CHR 0x0A, CHR ''b''])) = Inr 9"
  by (simp add: resolver_defs sample_defs)

lemma sample_line_break_quoted:
  "snd (parseA1ToGridRange sample_service c sid
          (JStr (quoted [CHR ''a'', CHR 0x0A, CHR ''b''] @ ''!A1:B2''))) =
     Inl (Error (''Sheet not found: '' @ quoted [CHR ''a'', CHR 0x0A, CHR ''b'']))"
  by (simp add: resolver_defs sample_defs)

text \<open>The sharp s is upper-cased to \<open>SS\<close>, which is a column name.\<close>

lemma sample_sharp_s:
  "snd (parseA1ToGridRange sample_service c sid
          (JStr (''Sheet1!'' @ [CHR 0xDF] @ ''1:'' @ [CHR 0xDF] @ ''2''))) =
     Inr \<lparr>sheetId = 0, startRowIndex = Fin 0, endRowIndex = Fin 2,
          startColumnIndex = Fin 512, endColumnIndex = Fin 513\<rparr>"
  by (simp add: resolver_defs sample_defs)

text \<open>Row numbers from \<open>2 ^ 53\<close> on: 9007199254740993 is not a double, and is read as
  9007199254740992.\<close>

lemma sample_groups:
  "letters ''AA''" "digits ''10''" "letters ''AB''" "digits ''12''"
  "letters ''B''" "digits ''2''" "letters ''A''" "digits ''1''"
  "digits ''9007199254740993''" "digits ''9007199254740992''"
  by (simp_all add: letters_def digits_def letter_run_def digit_run_def units_def
      upper_letter_def decimal_digit_def)

lemma sample_rows:
  "decimal_value (units ''10'') = 10" "decimal_value (units ''12'') = 12"
  "decimal_value (units ''2'') = 2" "decimal_value (units ''1'') = 1"
  "decimal_value (units ''9007199254740993'') = 9007199254740993"
  "decimal_value (units ''9007199254740992'') = 9007199254740992"
  by (simp_all add: units_def digit_value_def numerals_def)

lemma sample_names:
  "bijective_base26 (units ''AA'') = 27" "bijective_base26 (units ''AB'') = 28"
  "bijective_base26 (units ''A'') = 1" "bijective_base26 (units ''B'') = 2"
  by (simp_all add: units_def letter_position_def alphabet_def)

lemma large_rows:
  "parseInt (units ''9007199254740993'') = Fin 9007199254740992"
  "plus_int (parseInt (units ''9007199254740993'')) (- 1) = Fin 9007199254740991"
  "parseInt (units ''9007199254740992'') = Fin 9007199254740992"
  by code_simp+

subsection \<open>Claims about well-formed references\<close>

text \<open>
  Claim C1, as amended. Let \<open>Name\<close> contain no \<open>!\<close> and name an existing sheet, let
  the column names of the span have at most 11 letters and its row numbers be below
  \<open>2 ^ 53\<close>. For the reference \<open>Name!A1:B2\<close>, where \<open>Name\<close> is not itself wrapped in
  single quotes, and for the reference \<open>'Name'!A1:B2\<close>, where \<open>Name\<close> is non-empty and
  has no line terminator, the resolver returns the grid range with the id resolved for
  \<open>Name\<close>, the start row number minus one, the end row number, the index of the start
  letters and the index of the end letters plus one, the index of letters being their
  bijective base-26 value minus one. \<open>Sheet1!A1:B2\<close> with sheet id 0 gives
  \<open>(0, 0, 2, 0, 2)\<close>; \<open>'My Sheet'!C3:C3\<close> gives rows 2 to 3 and columns 2 to 3.
\<close>

theorem parseA1ToGridRange_grid_range:
  "(CHR ''!'' \<notin> set name \<and> letters c1 \<and> digits r1 \<and> letters c2 \<and> digits r2
      \<and> length c1 \<le> 11 \<and> length c2 \<le> 11
      \<and> decimal_value (units r1) < 2 ^ 53 \<and> decimal_value (units r2) < 2 ^ 53
      \<and> getSheetIdByName S c sid (JStr name) = (calls, Inr i) \<longrightarrow>
      (\<not> is_quoted name \<longrightarrow>
         parseA1ToGridRange S c sid (JStr (name @ ''!'' @ span_of c1 r1 c2 r2)) =
           (calls, Inr \<lparr>sheetId = i, startRowIndex = Fin (decimal_value (units r1) - 1),
                        endRowIndex = Fin (decimal_value (units r2)),
                        startColumnIndex = Fin (bijective_base26 (units c1) - 1),
                        endColumnIndex = Fin (bijective_base26 (units c2) - 1 + 1)\<rparr>))
      \<and> (name \<noteq> [] \<and> single_line name \<longrightarrow>
         parseA1ToGridRange S c sid (JStr (quoted name @ ''!'' @ span_of c1 r1 c2 r2)) =
           (calls, Inr \<lparr>sheetId = i, startRowIndex = Fin (decimal_value (units r1) - 1),
                        endRowIndex = Fin (decimal_value (units r2)),
                        startColumnIndex = Fin (bijective_base26 (units c1) - 1),
                        endColumnIndex = Fin (bijective_base26 (units c2) - 1 + 1)\<rparr>))
      \<and> columnLettersToIndex (units c1) = Fin (bijective_base26 (units c1) - 1)
      \<and> columnLettersToIndex (units c2) = Fin (bijective_base26 (units c2) - 1))
   \<and> snd (parseA1ToGridRange sample_service c sid (JStr ''Sheet1!A1:B2'')) =
       Inr \<lparr>sheetId = 0, startRowIndex = Fin 0, endRowIndex = Fin 2,
            startColumnIndex = Fin 0, endColumnIndex = Fin 2\<rparr>
   \<and> snd (parseA1ToGridRange sample_service c sid (JStr (quoted ''My Sheet'' @ ''!C3:C3''))) =
       Inr \<lparr>sheetId = 7, startRowIndex = Fin 2, endRowIndex = Fin 3,
            startColumnIndex = Fin 2, endColumnIndex = Fin 3\<rparr>"
proof (intro conjI impI)
  assume h: "CHR ''!'' \<notin> set name \<and> letters c1 \<and> digits r1 \<and> letters c2 \<and> digits r2
      \<and> length c1 \<le> 11 \<and> length c2 \<le> 11
      \<and> decimal_value (units r1) < 2 ^ 53 \<and> decimal_value (units r2) < 2 ^ 53
      \<and> getSheetIdByName S c sid (JStr name) = (calls, Inr i)"
  then have sep: "CHR ''!'' \<notin> set name" and gs: "letters c1" "digits r1" "letters c2" "digits r2"
    and bs: "length c1 \<le> 11" "length c2 \<le> 11"
      "decimal_value (units r1) < 2 ^ 53" "decimal_value (units r2) < 2 ^ 53"
    and look: "getSheetIdByName S c sid (JStr name) = (calls, Inr i)"
    by simp_all
  {
    assume "\<not> is_quoted name"
    then have "strip_quotes name = name" by (rule strip_quotes_plain)
    with look have "getSheetIdByName S c sid (JStr (strip_quotes name)) = (calls, Inr i)"
      by simp
    from parse_span_exact[OF sep gs bs this]
    show "parseA1ToGridRange S c sid (JStr (name @ ''!'' @ span_of c1 r1 c2 r2)) =
           (calls, Inr \<lparr>sheetId = i, startRowIndex = Fin (decimal_value (units r1) - 1),
                        endRowIndex = Fin (decimal_value (units r2)),
                        startColumnIndex = Fin (bijective_base26 (units c1) - 1),
                        endColumnIndex = Fin (bijective_base26 (units c2) - 1 + 1)\<rparr>)" .
  }
  {
    assume "name \<noteq> [] \<and> single_line name"
    then have "strip_quotes (quoted name) = name" by (simp add: strip_quotes_quoted)
    with look have "getSheetIdByName S c sid (JStr (strip_quotes (quoted name))) = (calls, Inr i)"
      by simp
    from parse_span_exact[OF quoted_without_separator[OF sep] gs bs this]
    show "parseA1ToGridRange S c sid (JStr (quoted name @ ''!'' @ span_of c1 r1 c2 r2)) =
           (calls, Inr \<lparr>sheetId = i, startRowIndex = Fin (decimal_value (units r1) - 1),
                        endRowIndex = Fin (decimal_value (units r2)),
                        startColumnIndex = Fin (bijective_base26 (units c1) - 1),
                        endColumnIndex = Fin (bijective_base26 (units c2) - 1 + 1)\<rparr>)" .
  }
  from gs(1,3) have cl: "list_all upper_letter (units c1)" "list_all upper_letter (units c2)"
    by (simp_all add: letters_def letter_run_def)
  from bs(1,2) have len: "length (units c1) \<le> 11" "length (units c2) \<le> 11"
    by (simp_all add: units_def)
  from bijective_base26_eleven[OF cl(1) len(1)] have "bijective_base26 (units c1) < 2 ^ 53"
    by simp
  then show "columnLettersToIndex (units c1) = Fin (bijective_base26 (units c1) - 1)"
    by (rule columnLettersToIndex_exact[OF cl(1)])
  from bijective_base26_eleven[OF cl(2) len(2)] have "bijective_base26 (units c2) < 2 ^ 53"
    by simp
  then show "columnLettersToIndex (units c2) = Fin (bijective_base26 (units c2) - 1)"
    by (rule columnLettersToIndex_exact[OF cl(2)])
next
  show "snd (parseA1ToGridRange sample_service c sid (JStr ''Sheet1!A1:B2'')) =
       Inr \<lparr>sheetId = 0, startRowIndex = Fin 0, endRowIndex = Fin 2,
            startColumnIndex = Fin 0, endColumnIndex = Fin 2\<rparr>"
    by (rule sample_Sheet1_A1_B2)
next
  show "snd (parseA1ToGridRange sample_service c sid (JStr (quoted ''My Sheet'' @ ''!C3:C3''))) =
       Inr \<lparr>sheetId = 7, startRowIndex = Fin 2, endRowIndex = Fin 3,
            startColumnIndex = Fin 2, endColumnIndex = Fin 3\<rparr>"
    by (rule sample_My_Sheet_C3_C3)
qed

theorem parseA1ToGridRange_grid_range_witness:
  "snd (parseA1ToGridRange sample_service (Clients ''t'') (JStr ''doc'')
          (JStr (''My Sheet'' @ ''!'' @ span_of ''AA'' ''10'' ''AB'' ''12''))) =
     Inr \<lparr>sheetId = 7, startRowIndex = Fin 9, endRowIndex = Fin 12,
          startColumnIndex = Fin 26, endColumnIndex = Fin 28\<rparr>
   \<and> snd (parseA1ToGridRange sample_service (Clients ''t'') (JStr ''doc'')
          (JStr (quoted ''My Sheet'' @ ''!'' @ span_of ''AA'' ''10'' ''AB'' ''12''))) =
     Inr \<lparr>sheetId = 7, startRowIndex = Fin 9, endRowIndex = Fin 12,
          startColumnIndex = Fin 26, endColumnIndex = Fin 28\<rparr>
   \<and> columnLettersToIndex (units ''AA'') = Fin 26
   \<and> columnLettersToIndex (units ''AB'') = Fin 27"
proof -
  have sep: "CHR ''!'' \<notin> set ''My Sheet''" by simp
  have plain: "\<not> is_quoted ''My Sheet''" by (simp add: is_quoted_def)
  have line: "''My Sheet'' \<noteq> [] \<and> single_line ''My Sheet''"
    by (simp add: single_line_def is_line_terminator_def charCode_def)
  have len: "length ''AA'' \<le> 11" "length ''AB'' \<le> 11" by simp_all
  have rows: "decimal_value (units ''10'') < 2 ^ 53" "decimal_value (units ''12'') < 2 ^ 53"
    by (simp_all add: sample_rows)
  from parseA1ToGridRange_grid_range[of "''My Sheet''" "''AA''" "''10''" "''AB''" "''12''"
      sample_service "Clients ''t''" "JStr ''doc''" _ 7]
    sep sample_groups(1-4) len rows sample_lookup_My_Sheet[of "Clients ''t''" "JStr ''doc''"]
    plain line
  show ?thesis by (simp add: sample_rows sample_names)
qed

text \<open>The claim as stated fails for row numbers that are not doubles: in
  \<open>Sheet1!A9007199254740993:B9007199254740993\<close> the start row number minus one is
  9007199254740992 and the end row number 9007199254740993, and the resolver returns
  9007199254740991 and 9007199254740992.\<close>

theorem large_row_counterexample:
  "CHR ''!'' \<notin> set ''Sheet1'' \<and> \<not> is_quoted ''Sheet1''
   \<and> letters ''A'' \<and> digits ''9007199254740993'' \<and> letters ''B''
   \<and> snd (getSheetIdByName sample_service (Clients ''t'') (JStr ''doc'') (JStr ''Sheet1''))
       = Inr 0
   \<and> decimal_value (units ''9007199254740993'') = 9007199254740993
   \<and> snd (parseA1ToGridRange sample_service (Clients ''t'') (JStr ''doc'')
            (JStr ''Sheet1!A9007199254740993:B9007199254740993'')) =
       Inr \<lparr>sheetId = 0, startRowIndex = Fin 9007199254740991,
            endRowIndex = Fin 9007199254740992,
            startColumnIndex = Fin 0, endColumnIndex = Fin 2\<rparr>"
proof -
  have sep: "CHR ''!'' \<notin> set ''Sheet1''" by simp
  have plain: "\<not> is_quoted ''Sheet1''" by (simp add: is_quoted_def)
  then have strip: "strip_quotes ''Sheet1'' = ''Sheet1''" by (rule strip_quotes_plain)
  note look = sample_lookup[of "Clients ''t''" "JStr ''doc''"]
  from look strip
  have l: "getSheetIdByName sample_service (Clients ''t'') (JStr ''doc'')
             (JStr (strip_quotes ''Sheet1'')) =
     ([request_of (Clients ''t'') Spreadsheets_get
         (JObj [(''spreadsheetId'', JStr ''doc''),
                (''fields'', JStr ''sheets(properties(sheetId,title))'')])], Inr 0)"
    by simp
  have ref: "''Sheet1!A9007199254740993:B9007199254740993''
      = ''Sheet1'' @ ''!'' @ span_of ''A'' ''9007199254740993'' ''B'' ''9007199254740993''"
    by (simp add: span_of_def)
  have "snd (parseA1ToGridRange sample_service (Clients ''t'') (JStr ''doc'')
            (JStr ''Sheet1!A9007199254740993:B9007199254740993'')) =
       Inr \<lparr>sheetId = 0, startRowIndex = Fin 9007199254740991,
            endRowIndex = Fin 9007199254740992,
            startColumnIndex = Fin 0, endColumnIndex = Fin 2\<rparr>"
    unfolding ref
      parse_span[OF sep sample_groups(7) sample_groups(9) sample_groups(5) sample_groups(9) l]
    by (simp add: large_rows(1,3) sample_columns plus_int_def to_number_small)
  with sep plain sample_groups(7) sample_groups(9) sample_groups(5) look sample_rows(5)
  show ?thesis by simp
qed

text \<open>
  Claim C6, as amended. Let the column names of the span have at most 11 letters and its
  row numbers be below \<open>2 ^ 53\<close>. When the end corner of the span precedes its start
  corner and the sheet exists, the resolver neither reorders the corners nor rejects the
  reference: it applies the same arithmetic, so that the end index is at most the start
  index in that direction. \<open>Sheet1!B2:A1\<close> gives start and end row 1, start and end
  column 1.
\<close>

theorem parseA1ToGridRange_inverted_span:
  "(CHR ''!'' \<notin> set sheetPart \<and> letters c1 \<and> digits r1 \<and> letters c2 \<and> digits r2
      \<and> length c1 \<le> 11 \<and> length c2 \<le> 11
      \<and> decimal_value (units r1) < 2 ^ 53 \<and> decimal_value (units r2) < 2 ^ 53
      \<and> getSheetIdByName S c sid (JStr (strip_quotes sheetPart)) = (calls, Inr i)
      \<and> (bijective_base26 (units c2) < bijective_base26 (units c1)
           \<or> decimal_value (units r2) < decimal_value (units r1)) \<longrightarrow>
      (\<exists>g. parseA1ToGridRange S c sid (JStr (sheetPart @ ''!'' @ span_of c1 r1 c2 r2)) =
             (calls, Inr g)
         \<and> sheetId g = i
         \<and> startRowIndex g = Fin (decimal_value (units r1) - 1)
         \<and> endRowIndex g = Fin (decimal_value (units r2))
         \<and> startColumnIndex g = Fin (bijective_base26 (units c1) - 1)
         \<and> endColumnIndex g = Fin (bijective_base26 (units c2) - 1 + 1)
         \<and> (bijective_base26 (units c2) - 1 + 1 \<le> bijective_base26 (units c1) - 1
              \<or> decimal_value (units r2) \<le> decimal_value (units r1) - 1)))
   \<and> snd (parseA1ToGridRange sample_service c sid (JStr ''Sheet1!B2:A1'')) =
       Inr \<lparr>sheetId = 0, startRowIndex = Fin 1, endRowIndex = Fin 1,
            startColumnIndex = Fin 1, endColumnIndex = Fin 1\<rparr>"
proof (intro conjI impI)
  assume h: "CHR ''!'' \<notin> set sheetPart \<and> letters c1 \<and> digits r1 \<and> letters c2 \<and> digits r2
      \<and> length c1 \<le> 11 \<and> length c2 \<le> 11
      \<and> decimal_value (units r1) < 2 ^ 53 \<and> decimal_value (units r2) < 2 ^ 53
      \<and> getSheetIdByName S c sid (JStr (strip_quotes sheetPart)) = (calls, Inr i)
      \<and> (bijective_base26 (units c2) < bijective_base26 (units c1)
           \<or> decimal_value (units r2) < decimal_value (units r1))"
  then have sep: "CHR ''!'' \<notin> set sheetPart"
    and gs: "letters c1" "digits r1" "letters c2" "digits r2"
    and bs: "length c1 \<le> 11" "length c2 \<le> 11"
      "decimal_value (units r1) < 2 ^ 53" "decimal_value (units r2) < 2 ^ 53"
    and look: "getSheetIdByName S c sid (JStr (strip_quotes sheetPart)) = (calls, Inr i)"
    and inv: "bijective_base26 (units c2) < bijective_base26 (units c1)
           \<or> decimal_value (units r2) < decimal_value (units r1)"
    by simp_all
  let ?g = "\<lparr>sheetId = i, startRowIndex = Fin (decimal_value (units r1) - 1),
             endRowIndex = Fin (decimal_value (units r2)),
             startColumnIndex = Fin (bijective_base26 (units c1) - 1),
             endColumnIndex = Fin (bijective_base26 (units c2) - 1 + 1)\<rparr>"
  have "parseA1ToGridRange S c sid (JStr (sheetPart @ ''!'' @ span_of c1 r1 c2 r2)) =
          (calls, Inr ?g)"
    by (rule parse_span_exact[OF sep gs bs look])
  moreover from inv
  have "bijective_base26 (units c2) - 1 + 1 \<le> bijective_base26 (units c1) - 1
          \<or> decimal_value (units r2) \<le> decimal_value (units r1) - 1"
    by auto
  ultimately
  show "\<exists>g. parseA1ToGridRange S c sid (JStr (sheetPart @ ''!'' @ span_of c1 r1 c2 r2)) =
             (calls, Inr g)
         \<and> sheetId g = i
         \<and> startRowIndex g = Fin (decimal_value (units r1) - 1)
         \<and> endRowIndex g = Fin (decimal_value (units r2))
         \<and> startColumnIndex g = Fin (bijective_base26 (units c1) - 1)
         \<and> endColumnIndex g = Fin (bijective_base26 (units c2) - 1 + 1)
         \<and> (bijective_base26 (units c2) - 1 + 1 \<le> bijective_base26 (units c1) - 1
              \<or> decimal_value (units r2) \<le> decimal_value (units r1) - 1)"
    by (intro exI[of _ ?g]) simp
next
  show "snd (parseA1ToGridRange sample_service c sid (JStr ''Sheet1!B2:A1'')) =
       Inr \<lparr>sheetId = 0, startRowIndex = Fin 1, endRowIndex = Fin 1,
            startColumnIndex = Fin 1, endColumnIndex = Fin 1\<rparr>"
    by (rule sample_Sheet1_B2_A1)
qed

theorem parseA1ToGridRange_inverted_span_witness:
  "bijective_base26 (units ''A'') < bijective_base26 (units ''B'')
   \<and> (\<exists>g. parseA1ToGridRange sample_service (Clients ''t'') (JStr ''doc'')
             (JStr (''Sheet1'' @ ''!'' @ span_of ''B'' ''2'' ''A'' ''1'')) =
           ([request_of (Clients ''t'') Spreadsheets_get
               (JObj [(''spreadsheetId'', JStr ''doc''),
                      (''fields'', JStr ''sheets(properties(sheetId,title))'')])], Inr g)
        \<and> sheetId g = 0 \<and> startRowIndex g = Fin 1 \<and> endRowIndex g = Fin 1
        \<and> startColumnIndex g = Fin 1 \<and> endColumnIndex g = Fin 1)"
proof -
  have sep: "CHR ''!'' \<notin> set ''Sheet1''" by simp
  have plain: "strip_quotes ''Sheet1'' = ''Sheet1''" by (simp add: strip_quotes_def)
  have len: "length ''B'' \<le> 11" "length ''A'' \<le> 11" by simp_all
  have rows: "decimal_value (units ''2'') < 2 ^ 53" "decimal_value (units ''1'') < 2 ^ 53"
    by (simp_all add: sample_rows)
  from parseA1ToGridRange_inverted_span[of "''Sheet1''" "''B''" "''2''" "''A''" "''1''"
      sample_service "Clients ''t''" "JStr ''doc''"
      "[request_of (Clients ''t'') Spreadsheets_get
          (JObj [(''spreadsheetId'', JStr ''doc''),
                 (''fields'', JStr ''sheets(properties(sheetId,title))'')])]" 0]
    sep sample_groups(5-8) len rows sample_lookup[of "Clients ''t''" "JStr ''doc''"] plain
  show ?thesis by (auto simp add: sample_rows sample_names)
qed

text \<open>The claim as stated fails for row numbers that are not doubles: in
  \<open>Sheet1!A9007199254740993:A9007199254740992\<close> the end row precedes the start row, and
  the grid range that the resolver returns has its start row before its end row, and its
  start column before its end column.\<close>

theorem large_rows_counterexample:
  "letters ''A'' \<and> digits ''9007199254740993'' \<and> digits ''9007199254740992''
   \<and> decimal_value (units ''9007199254740992'') < decimal_value (units ''9007199254740993'')
   \<and> snd (parseA1ToGridRange sample_service (Clients ''t'') (JStr ''doc'')
            (JStr ''Sheet1!A9007199254740993:A9007199254740992'')) =
       Inr \<lparr>sheetId = 0, startRowIndex = Fin 9007199254740991,
            endRowIndex = Fin 9007199254740992,
            startColumnIndex = Fin 0, endColumnIndex = Fin 1\<rparr>
   \<and> (9007199254740991::int) < 9007199254740992"
proof -
  have sep: "CHR ''!'' \<notin> set ''Sheet1''" by simp
  have strip: "strip_quotes ''Sheet1'' = ''Sheet1''" by (simp add: strip_quotes_def)
  from sample_lookup[of "Clients ''t''" "JStr ''doc''"] strip
  have l: "getSheetIdByName sample_service (Clients ''t'') (JStr ''doc'')
             (JStr (strip_quotes ''Sheet1'')) =
     ([request_of (Clients ''t'') Spreadsheets_get
         (JObj [(''spreadsheetId'', JStr ''doc''),
                (''fields'', JStr ''sheets(properties(sheetId,title))'')])], Inr 0)"
    by simp
  have ref: "''Sheet1!A9007199254740993:A9007199254740992''
      = ''Sheet1'' @ ''!'' @ span_of ''A'' ''9007199254740993'' ''A'' ''9007199254740992''"
    by (simp add: span_of_def)
  have "snd (parseA1ToGridRange sample_service (Clients ''t'') (JStr ''doc'')
            (JStr ''Sheet1!A9007199254740993:A9007199254740992'')) =
       Inr \<lparr>sheetId = 0, startRowIndex = Fin 9007199254740991,
            endRowIndex = Fin 9007199254740992,
            startColumnIndex = Fin 0, endColumnIndex = Fin 1\<rparr>"
    unfolding ref
      parse_span[OF sep sample_groups(7) sample_groups(9) sample_groups(7) sample_groups(10) l]
    by (simp add: large_rows(1,3) sample_columns plus_int_def to_number_small)
  with sample_groups(7) sample_groups(9) sample_groups(10) sample_rows(5,6)
  show ?thesis by simp
qed

subsection \<open>Rejected references\<close>

lemma match_here_needs:
  assumes "match_here s = Some m"
  shows "(\<exists>x\<in>set s. upper_letter x) \<and> (\<exists>x\<in>set s. decimal_digit x) \<and> 58 \<in> set s"
proof -
  let ?s1 = "dropWhile upper_letter s"
  let ?s2 = "dropWhile decimal_digit ?s1"
  from assms have c1: "takeWhile upper_letter s \<noteq> []"
    and r1: "takeWhile decimal_digit ?s1 \<noteq> []"
    and colon: "\<exists>s3. ?s2 = 58 # s3"
    by (auto simp: match_here_def Let_def split: if_splits list.splits)
  from c1 obtain x where "x \<in> set (takeWhile upper_letter s)"
    by (cases "takeWhile upper_letter s") auto
  then have a: "\<exists>x\<in>set s. upper_letter x" by (blast dest: set_takeWhileD)
  from r1 obtain y where "y \<in> set (takeWhile decimal_digit ?s1)"
    by (cases "takeWhile decimal_digit ?s1") auto
  then have "y \<in> set ?s1" and "decimal_digit y" by (auto dest: set_takeWhileD)
  then have d: "\<exists>x\<in>set s. decimal_digit x" by (blast dest: set_dropWhileD)
  from colon have "58 \<in> set ?s2" by auto
  then have "58 \<in> set s" by (blast dest: set_dropWhileD)
  with a d show ?thesis by blast
qed

lemma match_range_needs:
  "match_range s = Some m \<Longrightarrow>
   (\<exists>x\<in>set s. upper_letter x) \<and> (\<exists>x\<in>set s. decimal_digit x) \<and> 58 \<in> set s"
proof (induction s)
  case Nil
  then show ?case by simp
next
  case (Cons c cs)
  show ?case
  proof (cases "match_here (c # cs)")
    case (Some m')
    then show ?thesis by (rule match_here_needs)
  next
    case None
    with Cons.prems have "match_range cs = Some m" by simp
    from Cons.IH[OF this] show ?thesis by auto
  qed
qed

text \<open>Upper-casing makes no digit and no colon.\<close>

lemma toUpperCase_char_digit:
  "u \<in> set (toUpperCase_char x) \<Longrightarrow> decimal_digit u \<Longrightarrow> decimal_digit (of_char x)"
  by (auto simp: toUpperCase_char_def decimal_digit_def Let_def split: if_splits)

lemma toUpperCase_char_colon: "58 \<in> set (toUpperCase_char x) \<Longrightarrow> x = CHR '':''"
proof -
  assume "58 \<in> set (toUpperCase_char x)"
  then have "(of_char x :: nat) = 58"
    by (auto simp: toUpperCase_char_def Let_def split: if_splits)
  then have "(of_char x :: nat) = of_char CHR '':''" by simp
  then show ?thesis by (simp only: of_char_eq_iff)
qed

lemma toUpperCase_units:
  "u \<in> set (toUpperCase s) \<Longrightarrow> \<exists>x\<in>set s. u \<in> set (toUpperCase_char x)"
  by (auto simp: toUpperCase_def)

text \<open>A span without a digit, without a letter or without a colon has no match.\<close>

lemma match_range_open_ended:
  assumes "list_all (\<lambda>x. \<not> decimal_digit (of_char x)) span
           \<or> list_all (\<lambda>u. \<not> upper_letter u) (toUpperCase span)
           \<or> CHR '':'' \<notin> set span"
  shows "match_range (toUpperCase span) = None"
proof (rule ccontr)
  assume "match_range (toUpperCase span) \<noteq> None"
  then obtain m where "match_range (toUpperCase span) = Some m" by blast
  from match_range_needs[OF this]
  obtain a d where a: "a \<in> set (toUpperCase span)" "upper_letter a"
    and d: "d \<in> set (toUpperCase span)" "decimal_digit d"
    and colon: "58 \<in> set (toUpperCase span)"
    by blast
  from toUpperCase_units[OF d(1)] d(2) have "\<exists>x\<in>set span. decimal_digit (of_char x)"
    by (blast dest: toUpperCase_char_digit)
  moreover from toUpperCase_units[OF colon] have "CHR '':'' \<in> set span"
    by (blast dest: toUpperCase_char_colon)
  moreover from a have "\<not> list_all (\<lambda>u. \<not> upper_letter u) (toUpperCase span)"
    by (auto simp: list_all_iff)
  ultimately show False using assms by (auto simp: list_all_iff)
qed

subsection \<open>The matcher and the pattern\<close>

text \<open>The function \<open>match_range\<close> finds a match exactly when the string contains letters,
  digits, a colon, letters and digits in a row.\<close>

lemma run_prefix:
  "list_all P (takeWhile P s)"
  by (induction s) simp_all

lemma match_here_sound:
  assumes "match_here s = Some (c1, r1, c2, r2)"
  shows "\<exists>post. s = c1 @ r1 @ [58] @ c2 @ r2 @ post"
    and "letter_run c1" and "digit_run r1" and "letter_run c2" and "digit_run r2"
proof -
  let ?s1 = "dropWhile upper_letter s"
  let ?s2 = "dropWhile decimal_digit ?s1"
  from assms obtain s3 where colon: "?s2 = 58 # s3"
    by (auto simp: match_here_def Let_def split: if_splits list.splits)
  let ?s4 = "dropWhile upper_letter s3"
  from assms colon have groups: "c1 = takeWhile upper_letter s"
    "r1 = takeWhile decimal_digit ?s1"
    "c2 = takeWhile upper_letter s3" "r2 = takeWhile decimal_digit ?s4"
    and ne: "c1 \<noteq> []" "r1 \<noteq> []" "c2 \<noteq> []" "r2 \<noteq> []"
    by (auto simp: match_here_def Let_def split: if_splits)
  have "s = c1 @ ?s1" by (simp add: groups)
  also have "?s1 = r1 @ ?s2" by (simp add: groups)
  also have "?s2 = [58] @ s3" by (simp add: colon)
  also have "s3 = c2 @ ?s4" by (simp add: groups)
  also have "?s4 = r2 @ dropWhile decimal_digit ?s4" by (simp add: groups)
  finally have "s = c1 @ r1 @ [58] @ c2 @ r2 @ dropWhile decimal_digit ?s4" .
  then show "\<exists>post. s = c1 @ r1 @ [58] @ c2 @ r2 @ post" by blast
  from ne show "letter_run c1" "digit_run r1" "letter_run c2" "digit_run r2"
    by (simp_all add: letter_run_def digit_run_def groups run_prefix)
qed

lemma match_range_sound:
  "match_range s = Some (c1, r1, c2, r2) \<Longrightarrow>
   (\<exists>pre post. s = pre @ c1 @ r1 @ [58] @ c2 @ r2 @ post)
   \<and> letter_run c1 \<and> digit_run r1 \<and> letter_run c2 \<and> digit_run r2"
proof (induction s)
  case Nil
  then show ?case by simp
next
  case (Cons x xs)
  show ?case
  proof (cases "match_here (x # xs)")
    case None
    with Cons.prems have "match_range xs = Some (c1, r1, c2, r2)" by simp
    from Cons.IH[OF this] obtain pre post where "xs = pre @ c1 @ r1 @ [58] @ c2 @ r2 @ post"
      and cls: "letter_run c1 \<and> digit_run r1 \<and> letter_run c2 \<and> digit_run r2" by blast
    then have "x # xs = (x # pre) @ c1 @ r1 @ [58] @ c2 @ r2 @ post" by simp
    with cls show ?thesis by blast
  next
    case (Some m)
    with Cons.prems have m: "match_here (x # xs) = Some (c1, r1, c2, r2)" by simp
    from match_here_sound(1)[OF m] obtain post
      where "x # xs = [] @ c1 @ r1 @ [58] @ c2 @ r2 @ post"
      by auto
    with match_here_sound(2-5)[OF m] show ?thesis by blast
  qed
qed

lemma match_range_complete:
  assumes "letter_run c1" and "digit_run r1" and "letter_run c2" and "digit_run r2"
  shows "match_range (pre @ c1 @ r1 @ [58] @ c2 @ r2 @ post) \<noteq> None"
proof (induction pre)
  case Nil
  from assms(1) obtain x xs where "c1 @ r1 @ [58] @ c2 @ r2 @ post = x # xs"
    by (cases c1) (auto simp: letter_run_def)
  with match_here_complete[OF assms, of post] show ?case by auto
next
  case (Cons x pre)
  then show ?case by (cases "match_here (x # pre @ c1 @ r1 @ [58] @ c2 @ r2 @ post)") simp_all
qed

lemma match_range_None_iff: "match_range s = None \<longleftrightarrow> \<not> contains_span s"
  unfolding contains_span_def
proof
  assume none: "match_range s = None"
  show "\<not> (\<exists>pre c1 r1 c2 r2 post. s = pre @ c1 @ r1 @ [58] @ c2 @ r2 @ post
          \<and> letter_run c1 \<and> digit_run r1 \<and> letter_run c2 \<and> digit_run r2)"
  proof
    assume "\<exists>pre c1 r1 c2 r2 post. s = pre @ c1 @ r1 @ [58] @ c2 @ r2 @ post
          \<and> letter_run c1 \<and> digit_run r1 \<and> letter_run c2 \<and> digit_run r2"
    then obtain pre c1 r1 c2 r2 post where "s = pre @ c1 @ r1 @ [58] @ c2 @ r2 @ post"
      and "letter_run c1" "digit_run r1" "letter_run c2" "digit_run r2" by blast
    with match_range_complete[of c1 r1 c2 r2 pre post] none show False by simp
  qed
next
  assume no: "\<not> (\<exists>pre c1 r1 c2 r2 post. s = pre @ c1 @ r1 @ [58] @ c2 @ r2 @ post
          \<and> letter_run c1 \<and> digit_run r1 \<and> letter_run c2 \<and> digit_run r2)"
  show "match_range s = None"
  proof (rule ccontr)
    assume "match_range s \<noteq> None"
    then obtain c1 r1 c2 r2 where "match_range s = Some (c1, r1, c2, r2)" by auto
    from match_range_sound[OF this] no show False by blast
  qed
qed

subsection \<open>The pattern is not anchored\<close>

lemma entire_span_iff:
  "entire_span s \<longleftrightarrow>
   (\<exists>c1 r1 c2 r2. s = c1 @ r1 @ [58] @ c2 @ r2
      \<and> letter_run c1 \<and> digit_run r1 \<and> letter_run c2 \<and> digit_run r2)"
proof
  assume "entire_span s"
  then obtain c1 r1 c2 r2 where m: "match_here s = Some (c1, r1, c2, r2)"
    and s: "s = c1 @ r1 @ [58] @ c2 @ r2"
    by (auto simp: entire_span_def split: option.splits)
  from match_here_sound(2-5)[OF m] s
  show "\<exists>c1 r1 c2 r2. s = c1 @ r1 @ [58] @ c2 @ r2
      \<and> letter_run c1 \<and> digit_run r1 \<and> letter_run c2 \<and> digit_run r2"
    by blast
next
  assume "\<exists>c1 r1 c2 r2. s = c1 @ r1 @ [58] @ c2 @ r2
      \<and> letter_run c1 \<and> digit_run r1 \<and> letter_run c2 \<and> digit_run r2"
  then obtain c1 r1 c2 r2 where s: "s = c1 @ r1 @ [58] @ c2 @ r2"
    and g: "letter_run c1" "digit_run r1" "letter_run c2" "digit_run r2" by blast
  from match_here_span[OF g] s show "entire_span s" by (simp add: entire_span_def)
qed

text \<open>
  Claim C10. The span check looks for the pattern anywhere in the span part. There are
  references whose span part is not, as a whole, letters, digits, colon, letters, digits,
  but contains them in a row, and which the resolver accepts, decoding the first part of
  the span that has that form: \<open>Sheet1!A1:B2:C3\<close>, \<open>Sheet1!-A1:B2-\<close> and
  \<open>Sheet1!9C3:D4:E5\<close>.
\<close>

theorem parseA1ToGridRange_unanchored:
  "\<not> entire_span (toUpperCase ''A1:B2:C3'') \<and> contains_span (toUpperCase ''A1:B2:C3'')
   \<and> snd (parseA1ToGridRange sample_service c sid (JStr ''Sheet1!A1:B2:C3'')) =
       Inr \<lparr>sheetId = 0, startRowIndex = Fin 0, endRowIndex = Fin 2,
            startColumnIndex = Fin 0, endColumnIndex = Fin 2\<rparr>
   \<and> \<not> entire_span (toUpperCase ''-A1:B2-'') \<and> contains_span (toUpperCase ''-A1:B2-'')
   \<and> snd (parseA1ToGridRange sample_service c sid (JStr ''Sheet1!-A1:B2-'')) =
       Inr \<lparr>sheetId = 0, startRowIndex = Fin 0, endRowIndex = Fin 2,
            startColumnIndex = Fin 0, endColumnIndex = Fin 2\<rparr>
   \<and> \<not> entire_span (toUpperCase ''9C3:D4:E5'') \<and> contains_span (toUpperCase ''9C3:D4:E5'')
   \<and> snd (parseA1ToGridRange sample_service c sid (JStr ''Sheet1!9C3:D4:E5'')) =
       Inr \<lparr>sheetId = 0, startRowIndex = Fin 2, endRowIndex = Fin 4,
            startColumnIndex = Fin 2, endColumnIndex = Fin 4\<rparr>"
proof -
  have whole: "\<not> entire_span (toUpperCase ''A1:B2:C3'')"
    "\<not> entire_span (toUpperCase ''-A1:B2-'')"
    "\<not> entire_span (toUpperCase ''9C3:D4:E5'')"
    by (simp_all add: entire_span_def toUpperCase_def toUpperCase_char_def match_here_def
        upper_letter_def decimal_digit_def Let_def)
  have "match_range (toUpperCase ''A1:B2:C3'') \<noteq> None"
    "match_range (toUpperCase ''-A1:B2-'') \<noteq> None"
    "match_range (toUpperCase ''9C3:D4:E5'') \<noteq> None"
    by (simp_all add: toUpperCase_def toUpperCase_char_def match_here_def upper_letter_def
        decimal_digit_def Let_def)
  then have part: "contains_span (toUpperCase ''A1:B2:C3'')"
    "contains_span (toUpperCase ''-A1:B2-'')"
    "contains_span (toUpperCase ''9C3:D4:E5'')"
    by (simp_all only: match_range_None_iff not_not)
  have first: "snd (parseA1ToGridRange sample_service c sid (JStr ''Sheet1!A1:B2:C3'')) =
       Inr \<lparr>sheetId = 0, startRowIndex = Fin 0, endRowIndex = Fin 2,
            startColumnIndex = Fin 0, endColumnIndex = Fin 2\<rparr>"
    by (simp add: resolver_defs sample_defs)
  have second: "snd (parseA1ToGridRange sample_service c sid (JStr ''Sheet1!-A1:B2-'')) =
       Inr \<lparr>sheetId = 0, startRowIndex = Fin 0, endRowIndex = Fin 2,
            startColumnIndex = Fin 0, endColumnIndex = Fin 2\<rparr>"
    by (simp add: resolver_defs sample_defs)
  have third: "snd (parseA1ToGridRange sample_service c sid (JStr ''Sheet1!9C3:D4:E5'')) =
       Inr \<lparr>sheetId = 0, startRowIndex = Fin 2, endRowIndex = Fin 4,
            startColumnIndex = Fin 2, endColumnIndex = Fin 4\<rparr>"
    by (simp add: resolver_defs sample_defs)
  from whole part first second third show ?thesis by simp
qed

text \<open>
  Claim C3, as amended. The sheet part is the text before the first \<open>!\<close> and the span
  part is the text between the first \<open>!\<close> and the next one (or the end). The resolver
  fails with \<open>range must include sheet name, e.g., "Sheet1!A1:B2"\<close>, before any external
  call, when the reference has no \<open>!\<close> or its span part is empty. When the span part is
  not empty, a failed sheet lookup is reported first; when the lookup succeeds and the
  upper-cased span part nowhere contains letters, digits, a colon, letters and digits in
  a row, the resolver fails with \<open>range must be like A1:B2\<close>. That is so for every
  span part without a digit, without a colon, or with none of the letters A to Z once it
  is upper-cased, which covers \<open>A:A\<close>, \<open>1:5\<close> and \<open>A1\<close>.
\<close>

theorem parseA1ToGridRange_failures:
  "(CHR ''!'' \<notin> set a1 \<longrightarrow>
      parseA1ToGridRange S c sid (JStr a1) = ([], Inl (Error sheet_name_message)))
   \<and> (CHR ''!'' \<notin> set sheetPart \<and> takeWhile (\<lambda>x. x \<noteq> CHR ''!'') rest = [] \<longrightarrow>
      parseA1ToGridRange S c sid (JStr (sheetPart @ ''!'' @ rest)) =
        ([], Inl (Error sheet_name_message)))
   \<and> (CHR ''!'' \<notin> set sheetPart \<and> takeWhile (\<lambda>x. x \<noteq> CHR ''!'') rest \<noteq> []
        \<and> getSheetIdByName S c sid (JStr (strip_quotes sheetPart)) = (calls, Inl e) \<longrightarrow>
      parseA1ToGridRange S c sid (JStr (sheetPart @ ''!'' @ rest)) = (calls, Inl e))
   \<and> (CHR ''!'' \<notin> set sheetPart \<and> takeWhile (\<lambda>x. x \<noteq> CHR ''!'') rest \<noteq> []
        \<and> getSheetIdByName S c sid (JStr (strip_quotes sheetPart)) = (calls, Inr i)
        \<and> \<not> contains_span (toUpperCase (takeWhile (\<lambda>x. x \<noteq> CHR ''!'') rest)) \<longrightarrow>
      parseA1ToGridRange S c sid (JStr (sheetPart @ ''!'' @ rest)) =
        (calls, Inl (Error ''range must be like A1:B2'')))
   \<and> (list_all (\<lambda>x. \<not> decimal_digit (of_char x)) span
        \<or> list_all (\<lambda>u. \<not> upper_letter u) (toUpperCase span)
        \<or> CHR '':'' \<notin> set span \<longrightarrow>
      \<not> contains_span (toUpperCase span))"
proof (intro conjI impI)
  assume "CHR ''!'' \<notin> set a1"
  then show "parseA1ToGridRange S c sid (JStr a1) = ([], Inl (Error sheet_name_message))"
    by (rule parse_without_separator)
next
  assume "CHR ''!'' \<notin> set sheetPart \<and> takeWhile (\<lambda>x. x \<noteq> CHR ''!'') rest = []"
  then show "parseA1ToGridRange S c sid (JStr (sheetPart @ ''!'' @ rest)) =
        ([], Inl (Error sheet_name_message))"
    using parse_parts[of sheetPart S c sid rest] by (simp add: throw_io_def)
next
  assume "CHR ''!'' \<notin> set sheetPart \<and> takeWhile (\<lambda>x. x \<noteq> CHR ''!'') rest \<noteq> []
        \<and> getSheetIdByName S c sid (JStr (strip_quotes sheetPart)) = (calls, Inl e)"
  then show "parseA1ToGridRange S c sid (JStr (sheetPart @ ''!'' @ rest)) = (calls, Inl e)"
    using parse_parts[of sheetPart S c sid rest] by (simp add: bind_io_failure)
next
  assume "CHR ''!'' \<notin> set sheetPart \<and> takeWhile (\<lambda>x. x \<noteq> CHR ''!'') rest \<noteq> []
        \<and> getSheetIdByName S c sid (JStr (strip_quotes sheetPart)) = (calls, Inr i)
        \<and> \<not> contains_span (toUpperCase (takeWhile (\<lambda>x. x \<noteq> CHR ''!'') rest))"
  then show "parseA1ToGridRange S c sid (JStr (sheetPart @ ''!'' @ rest)) =
        (calls, Inl (Error ''range must be like A1:B2''))"
    using parse_parts[of sheetPart S c sid rest]
    by (simp add: bind_io_result throw_io_def match_range_None_iff[symmetric])
next
  assume "list_all (\<lambda>x. \<not> decimal_digit (of_char x)) span
        \<or> list_all (\<lambda>u. \<not> upper_letter u) (toUpperCase span)
        \<or> CHR '':'' \<notin> set span"
  then have "match_range (toUpperCase span) = None"
    by (rule match_range_open_ended)
  then show "\<not> contains_span (toUpperCase span)"
    by (simp add: match_range_None_iff)
qed

theorem parseA1ToGridRange_failures_witness:
  "parseA1ToGridRange sample_service (Clients ''t'') (JStr ''doc'') (JStr ''A1:B2'') =
     ([], Inl (Error sheet_name_message))
   \<and> parseA1ToGridRange sample_service (Clients ''t'') (JStr ''doc'') (JStr ''Sheet1!'') =
     ([], Inl (Error sheet_name_message))
   \<and> snd (parseA1ToGridRange (failing_service ''quota'') (Clients ''t'') (JStr ''doc'')
            (JStr ''Sheet1!A1:B2'')) = Inl (Error ''quota'')
   \<and> snd (parseA1ToGridRange sample_service (Clients ''t'') (JStr ''doc'')
            (JStr ''Sheet1!A:A'')) = Inl (Error ''range must be like A1:B2'')
   \<and> \<not> contains_span (toUpperCase ''a:a'')
   \<and> \<not> contains_span (toUpperCase ''1:5'')
   \<and> \<not> contains_span (toUpperCase ''A1'')"
proof -
  note inst = parseA1ToGridRange_failures
  let ?calls = "[request_of (Clients ''t'') Spreadsheets_get
            (JObj [(''spreadsheetId'', JStr ''doc''),
                   (''fields'', JStr ''sheets(properties(sheetId,title))'')])]"
  have "CHR ''!'' \<notin> set ''A1:B2''" by simp
  with inst[of "''A1:B2''" sample_service "Clients ''t''" "JStr ''doc''"]
  have w1: "parseA1ToGridRange sample_service (Clients ''t'') (JStr ''doc'') (JStr ''A1:B2'') =
     ([], Inl (Error sheet_name_message))" by blast
  have "CHR ''!'' \<notin> set ''Sheet1'' \<and> takeWhile (\<lambda>x. x \<noteq> CHR ''!'') [] = []" by simp
  with inst[of _ sample_service "Clients ''t''" "JStr ''doc''" "''Sheet1''" "[]"]
  have w2: "parseA1ToGridRange sample_service (Clients ''t'') (JStr ''doc'') (JStr ''Sheet1!'') =
     ([], Inl (Error sheet_name_message))" by simp
  have plain: "strip_quotes ''Sheet1'' = ''Sheet1''" by (simp add: strip_quotes_def)
  have "getSheetIdByName (failing_service ''quota'') (Clients ''t'') (JStr ''doc'') (JStr ''Sheet1'')
      = (?calls, Inl (Error ''quota''))"
    by (simp add: getSheetIdByName_def send_metadata_def bind_io_def failing_service_def)
  with inst[of _ "failing_service ''quota''" "Clients ''t''" "JStr ''doc''" "''Sheet1''" "''A1:B2''"
      ?calls "Error ''quota''"]
    plain
  have w3: "snd (parseA1ToGridRange (failing_service ''quota'') (Clients ''t'') (JStr ''doc'')
            (JStr ''Sheet1!A1:B2'')) = Inl (Error ''quota'')" by simp
  have "match_range (toUpperCase ''A:A'') = None"
    by (simp add: toUpperCase_def toUpperCase_char_def match_here_def upper_letter_def
        decimal_digit_def Let_def)
  then have none: "\<not> contains_span (toUpperCase ''A:A'')"
    by (simp add: match_range_None_iff)
  with inst[of _ sample_service "Clients ''t''" "JStr ''doc''" "''Sheet1''" "''A:A''" ?calls _ 0]
    plain sample_lookup[of "Clients ''t''" "JStr ''doc''"]
  have w4: "snd (parseA1ToGridRange sample_service (Clients ''t'') (JStr ''doc'')
            (JStr ''Sheet1!A:A'')) = Inl (Error ''range must be like A1:B2'')" by simp
  have "list_all (\<lambda>x. \<not> decimal_digit (of_char x)) ''a:a''" by (simp add: decimal_digit_def)
  with inst[of _ _ _ _ _ _ _ _ _ "''a:a''"] have w5: "\<not> contains_span (toUpperCase ''a:a'')"
    by blast
  have "list_all (\<lambda>u. \<not> upper_letter u) (toUpperCase ''1:5'')"
    by (simp add: upper_letter_def toUpperCase_def toUpperCase_char_def)
  with inst[of _ _ _ _ _ _ _ _ _ "''1:5''"] have w6: "\<not> contains_span (toUpperCase ''1:5'')"
    by blast
  have "CHR '':'' \<notin> set ''A1''" by simp
  with inst[of _ _ _ _ _ _ _ _ _ "''A1''"] have w7: "\<not> contains_span (toUpperCase ''A1'')"
    by blast
  from w1 w2 w3 w4 w5 w6 w7 show ?thesis by blast
qed

text \<open>The claim as stated fails: with a span part that has no match, the resolver reports
  a missing sheet when the lookup fails, and the sheet-name message when the span part is
  empty. It also takes the span part to end at a second \<open>!\<close>.\<close>

theorem span_check_counterexample:
  "\<not> contains_span (toUpperCase ''A:A'')
   \<and> snd (parseA1ToGridRange sample_service (Clients ''t'') (JStr ''doc'') (JStr ''Nope!A:A''))
       = Inl (Error ''Sheet not found: Nope'')
   \<and> \<not> contains_span (toUpperCase [])
   \<and> snd (parseA1ToGridRange sample_service (Clients ''t'') (JStr ''doc'') (JStr ''Sheet1!''))
       = Inl (Error sheet_name_message)
   \<and> Error sheet_name_message \<noteq> Error ''range must be like A1:B2''
   \<and> contains_span (toUpperCase ''A1!B2:C3'')
   \<and> snd (parseA1ToGridRange sample_service (Clients ''t'') (JStr ''doc'')
            (JStr ''Sheet1!A1!B2:C3'')) = Inl (Error ''range must be like A1:B2'')"
proof -
  have "match_range (toUpperCase ''A:A'') = None" "match_range (toUpperCase []) = None"
    "match_range (toUpperCase ''A1!B2:C3'') \<noteq> None"
    by (simp_all add: toUpperCase_def toUpperCase_char_def match_here_def upper_letter_def
        decimal_digit_def Let_def)
  then have m: "\<not> contains_span (toUpperCase ''A:A'')" "\<not> contains_span (toUpperCase [])"
    "contains_span (toUpperCase ''A1!B2:C3'')"
    by (simp_all add: match_range_None_iff)
  have p1: "snd (parseA1ToGridRange sample_service (Clients ''t'') (JStr ''doc'')
      (JStr ''Nope!A:A'')) = Inl (Error ''Sheet not found: Nope'')"
    by (simp add: resolver_defs sample_defs)
  have p2: "snd (parseA1ToGridRange sample_service (Clients ''t'') (JStr ''doc'')
      (JStr ''Sheet1!'')) = Inl (Error sheet_name_message)"
    by (simp add: resolver_defs sample_defs)
  have p3: "snd (parseA1ToGridRange sample_service (Clients ''t'') (JStr ''doc'')
      (JStr ''Sheet1!A1!B2:C3'')) = Inl (Error ''range must be like A1:B2'')"
    by (simp add: resolver_defs sample_defs)
  have ne: "Error sheet_name_message \<noteq> Error ''range must be like A1:B2''"
    by (simp add: sheet_name_message_def)
  from m p1 p2 p3 ne show ?thesis by simp
qed

section \<open>Sheet lookup\<close>

text \<open>
  Claim C4. When the metadata fetch succeeds, \<open>getSheetIdByName\<close> makes that one call
  and returns the id of the first entry of the fetched list whose title is exactly the
  requested name; when no entry has that title it fails with \<open>Sheet not found\<close>.
\<close>

theorem getSheetIdByName_first_match:
  assumes "answer_metadata S
             (request_of c Spreadsheets_get
                (JObj [(''spreadsheetId'', sid),
                       (''fields'', JStr ''sheets(properties(sheetId,title))'')])) = Inr rsp"
    and "(case sheets (data rsp) of None \<Rightarrow> [] | Some l \<Rightarrow> l) = ss"
  shows "(i < length ss \<and> properties (ss ! i) = Some p \<and> properties_title p = name
            \<and> (\<forall>j<i. \<forall>q. properties (ss ! j) = Some q \<longrightarrow> properties_title q \<noteq> name) \<longrightarrow>
          getSheetIdByName S c sid (JStr name) =
            ([request_of c Spreadsheets_get
                (JObj [(''spreadsheetId'', sid),
                       (''fields'', JStr ''sheets(properties(sheetId,title))'')])],
             Inr (properties_sheetId p)))
       \<and> ((\<forall>s\<in>set ss. \<forall>q. properties s = Some q \<longrightarrow> properties_title q \<noteq> name) \<longrightarrow>
          getSheetIdByName S c sid (JStr name) =
            ([request_of c Spreadsheets_get
                (JObj [(''spreadsheetId'', sid),
                       (''fields'', JStr ''sheets(properties(sheetId,title))'')])],
             Inl (Error (''Sheet not found: '' @ name))))"
proof (intro conjI impI)
  let ?req = "request_of c Spreadsheets_get
                (JObj [(''spreadsheetId'', sid),
                       (''fields'', JStr ''sheets(properties(sheetId,title))'')])"
  have titled_iff: "titled (JStr name) s \<longleftrightarrow>
      (\<exists>q. properties s = Some q \<and> properties_title q = name)" for s
    by (auto simp: titled_def split: option.splits)
  have run: "getSheetIdByName S c sid (JStr name) =
      (case find (titled (JStr name)) ss of
         None \<Rightarrow> ([?req], Inl (Error (''Sheet not found: '' @ name)))
       | Some s \<Rightarrow>
           (case properties s of
              None \<Rightarrow> ([?req], Inl (Error ''Cannot read properties of undefined (reading 'sheetId')''))
            | Some p \<Rightarrow> ([?req], Inr (properties_sheetId p))))"
    using assms
    by (simp add: getSheetIdByName_def send_metadata_def bind_io_def throw_io_def return_io_def
        split: option.splits)
  {
    assume h: "i < length ss \<and> properties (ss ! i) = Some p \<and> properties_title p = name
            \<and> (\<forall>j<i. \<forall>q. properties (ss ! j) = Some q \<longrightarrow> properties_title q \<noteq> name)"
    then have "titled (JStr name) (ss ! i)" and "\<forall>j<i. \<not> titled (JStr name) (ss ! j)"
      by (auto simp: titled_iff)
    with h have "find (titled (JStr name)) ss = Some (ss ! i)"
      unfolding find_Some_iff by blast
    with h show "getSheetIdByName S c sid (JStr name) = ([?req], Inr (properties_sheetId p))"
      by (simp add: run)
  }
  {
    assume "\<forall>s\<in>set ss. \<forall>q. properties s = Some q \<longrightarrow> properties_title q \<noteq> name"
    then have "find (titled (JStr name)) ss = None"
      unfolding find_None_iff by (auto simp: titled_iff)
    then show "getSheetIdByName S c sid (JStr name) =
        ([?req], Inl (Error (''Sheet not found: '' @ name)))"
      by (simp add: run)
  }
qed

theorem getSheetIdByName_first_match_witness:
  "snd (getSheetIdByName sample_service (Clients ''t'') (JStr ''doc'') (JStr ''Sheet1'')) = Inr 0
   \<and> snd (getSheetIdByName sample_service (Clients ''t'') (JStr ''doc'') (JStr ''My Sheet'')) = Inr 7
   \<and> snd (getSheetIdByName sample_service (Clients ''t'') (JStr ''doc'') (JStr ''sheet1'')) =
       Inl (Error ''Sheet not found: sheet1'')"
proof -
  let ?req = "request_of (Clients ''t'') Spreadsheets_get
                (JObj [(''spreadsheetId'', JStr ''doc''),
                       (''fields'', JStr ''sheets(properties(sheetId,title))'')])"
  have a: "answer_metadata sample_service ?req =
      Inr \<lparr>status = 200, data = \<lparr>sheets = Some sample_sheets\<rparr>\<rparr>"
    by (simp add: sample_defs)
  have b: "(case sheets (data \<lparr>status = 200, data = \<lparr>sheets = Some sample_sheets\<rparr>\<rparr>) of
             None \<Rightarrow> [] | Some l \<Rightarrow> l) = sample_sheets"
    by simp
  note inst = getSheetIdByName_first_match[OF a b]
  have "0 < length sample_sheets \<and> properties (sample_sheets ! 0) =
      Some \<lparr>properties_sheetId = 0, properties_title = ''Sheet1''\<rparr>"
    by (simp add: sample_defs)
  with inst[of 0 "\<lparr>properties_sheetId = 0, properties_title = ''Sheet1''\<rparr>" "''Sheet1''"]
  have w1: "snd (getSheetIdByName sample_service (Clients ''t'') (JStr ''doc'') (JStr ''Sheet1'')) = Inr 0"
    by simp
  have "2 < length sample_sheets \<and> properties (sample_sheets ! 2) =
      Some \<lparr>properties_sheetId = 7, properties_title = ''My Sheet''\<rparr>
      \<and> (\<forall>j<2. \<forall>q. properties (sample_sheets ! j) = Some q \<longrightarrow> properties_title q \<noteq> ''My Sheet'')"
    by (auto simp: sample_defs less_Suc_eq numeral_2_eq_2)
  with inst[of 2 "\<lparr>properties_sheetId = 7, properties_title = ''My Sheet''\<rparr>" "''My Sheet''"]
  have w2: "snd (getSheetIdByName sample_service (Clients ''t'') (JStr ''doc'') (JStr ''My Sheet'')) = Inr 7"
    by simp
  have "\<forall>s\<in>set sample_sheets. \<forall>q. properties s = Some q \<longrightarrow> properties_title q \<noteq> ''sheet1''"
    by (auto simp: sample_defs)
  with inst[of _ _ "''sheet1''"]
  have w3: "snd (getSheetIdByName sample_service (Clients ''t'') (JStr ''doc'') (JStr ''sheet1'')) =
       Inl (Error ''Sheet not found: sheet1'')"
    by simp
  from w1 w2 w3 show ?thesis by simp
qed

section \<open>Credential extraction\<close>

lemma bearer_group_found:
  "bearer_group k rest = Some tok \<Longrightarrow>
   \<exists>j. 1 \<le> j \<and> j \<le> k \<and> tok = drop j rest \<and> tok \<noteq> [] \<and> single_line tok"
proof (induction k)
  case 0
  then show ?case by simp
next
  case (Suc k)
  show ?case
  proof (cases "drop (Suc k) rest \<noteq> [] \<and> single_line (drop (Suc k) rest)")
    case True
    with Suc.prems have "tok = drop (Suc k) rest" by (simp add: single_line_def Let_def)
    with True show ?thesis by (intro exI[of _ "Suc k"]) simp
  next
    case False
    with Suc.prems have "bearer_group k rest = Some tok"
      by (auto simp: single_line_def Let_def)
    from Suc.IH[OF this] obtain j where "1 \<le> j" "j \<le> k" "tok = drop j rest" "tok \<noteq> []"
      "single_line tok" by blast
    then show ?thesis by (intro exI[of _ j]) simp
  qed
qed

lemma bearer_group_greedy:
  "drop (Suc k) rest \<noteq> [] \<Longrightarrow> single_line (drop (Suc k) rest) \<Longrightarrow>
   bearer_group (Suc k) rest = Some (drop (Suc k) rest)"
  by (simp add: single_line_def Let_def)

lemma bearer_word_length: "map toLowerCase_char w = ''bearer'' \<Longrightarrow> length w = 6"
proof -
  assume "map toLowerCase_char w = ''bearer''"
  then have "length (map toLowerCase_char w) = length ''bearer''" by (rule arg_cong)
  then show ?thesis by simp
qed

lemma spaces_then_token:
  assumes "list_all is_space ws" and "tok \<noteq> []" and "\<not> is_space (hd tok)"
  shows "takeWhile is_space (ws @ tok) = ws"
  using run_then_stop(1)[OF assms(1), of tok] assms(3) by simp

lemma match_bearer_token:
  assumes "map toLowerCase_char w = ''bearer''" and "ws \<noteq> []" and "list_all is_space ws"
    and "tok \<noteq> []" and "single_line tok" and "\<not> is_space (hd tok)"
  shows "match_bearer (w @ ws @ tok) = Some tok"
proof -
  from assms(1) have len: "length w = 6" by (rule bearer_word_length)
  then have parts: "take 6 (w @ ws @ tok) = w" "drop 6 (w @ ws @ tok) = ws @ tok" by simp_all
  from assms(2) obtain k where k: "length ws = Suc k" by (cases ws) auto
  have "drop (Suc k) (ws @ tok) = tok" using k by simp
  with assms(4,5) have grp: "bearer_group (Suc k) (ws @ tok) = Some tok"
    using bearer_group_greedy[of k "ws @ tok"] by simp
  have "match_bearer (w @ ws @ tok) =
      bearer_group (length (takeWhile is_space (ws @ tok))) (ws @ tok)"
    by (simp only: match_bearer_def parts assms(1)) simp
  also have "\<dots> = bearer_group (Suc k) (ws @ tok)"
    by (simp only: spaces_then_token[OF assms(3,4,6)] k)
  finally show ?thesis using grp by simp
qed

lemma take_within_run:
  assumes "j \<le> length (takeWhile P xs)"
  shows "list_all P (take j xs)"
proof -
  have "take j (takeWhile P xs @ dropWhile P xs) =
      take j (takeWhile P xs) @ take (j - length (takeWhile P xs)) (dropWhile P xs)"
    by (rule take_append)
  moreover from assms have "j - length (takeWhile P xs) = 0" by simp
  ultimately have "take j (takeWhile P xs @ dropWhile P xs) = take j (takeWhile P xs)"
    by (simp only: take_0 append_Nil2)
  then have "take j xs = take j (takeWhile P xs)"
    by (simp only: takeWhile_dropWhile_id)
  then have "set (take j xs) \<subseteq> set (takeWhile P xs)" by (simp add: set_take_subset)
  then show ?thesis by (auto simp: list_all_iff dest: set_takeWhileD)
qed

lemma match_bearer_shape:
  assumes "match_bearer h = Some tok"
  shows "bearer_shape h tok"
proof -
  let ?rest = "drop 6 h"
  have word: "map toLowerCase_char (take 6 h) = ''bearer''"
  proof (rule ccontr)
    assume "map toLowerCase_char (take 6 h) \<noteq> ''bearer''"
    then have "match_bearer h = None" by (simp only: match_bearer_def if_False)
    with assms show False by simp
  qed
  then have "match_bearer h = bearer_group (length (takeWhile is_space ?rest)) ?rest"
    by (simp only: match_bearer_def simp_thms if_True)
  with assms have grp: "bearer_group (length (takeWhile is_space ?rest)) ?rest = Some tok"
    by simp
  from bearer_group_found[OF grp] obtain j where j: "1 \<le> j"
    "j \<le> length (takeWhile is_space ?rest)" "tok = drop j ?rest" "tok \<noteq> []" "single_line tok"
    by blast
  from j(2) have sp: "list_all is_space (take j ?rest)" by (rule take_within_run)
  from j(1) j(2) have "0 < length (takeWhile is_space ?rest)" by linarith
  then have "takeWhile is_space ?rest \<noteq> []" by simp
  then have "?rest \<noteq> []" by auto
  with j(1) have ne: "take j ?rest \<noteq> []" by (cases j) simp_all
  have split: "h = take 6 h @ take j ?rest @ tok" by (simp only: j(3) append_take_drop_id)
  show ?thesis
    unfolding bearer_shape_def
  proof (intro exI conjI)
    show "h = take 6 h @ take j ?rest @ tok" by (rule split)
    show "map toLowerCase_char (take 6 h) = ''bearer''" by (rule word)
    show "take j ?rest \<noteq> []" by (rule ne)
    show "list_all is_space (take j ?rest)" by (rule sp)
    show "tok \<noteq> []" by (rule j(4))
    show "single_line tok" by (rule j(5))
  qed
qed

text \<open>
  Claim C7, as amended. Credential extraction fails with \<open>Missing Authorization header\<close>
  when the request carries no authorization header or an empty one, fails with
  \<open>Invalid Authorization header format\<close> when the header is not empty and has not the
  shape \<open>Bearer <token>\<close>, and otherwise returns a token portion of the header: for a
  header made of the word, white space and a token that does not begin with white space,
  that token, verbatim.
\<close>

theorem getBearerToken_cases:
  "(header_authorization req = None \<or> header_authorization req = Some [] \<longrightarrow>
      getBearerToken req = Inl (Error ''Missing Authorization header''))
   \<and> (header_authorization req = Some h \<and> h \<noteq> [] \<and> (\<forall>t. \<not> bearer_shape h t) \<longrightarrow>
      getBearerToken req = Inl (Error ''Invalid Authorization header format''))
   \<and> (header_authorization req = Some (w @ ws @ tok)
        \<and> map toLowerCase_char w = ''bearer'' \<and> ws \<noteq> [] \<and> list_all is_space ws
        \<and> tok \<noteq> [] \<and> single_line tok \<and> \<not> is_space (hd tok) \<longrightarrow>
      getBearerToken req = Inr tok)
   \<and> (getBearerToken req = Inr tok \<longrightarrow>
      (\<exists>h. header_authorization req = Some h \<and> bearer_shape h tok))"
proof (intro conjI impI)
  assume "header_authorization req = None \<or> header_authorization req = Some []"
  then show "getBearerToken req = Inl (Error ''Missing Authorization header'')"
    by (auto simp: getBearerToken_def)
next
  assume h: "header_authorization req = Some h \<and> h \<noteq> [] \<and> (\<forall>t. \<not> bearer_shape h t)"
  then have "match_bearer h = None"
    using match_bearer_shape[of h] by (cases "match_bearer h") auto
  with h show "getBearerToken req = Inl (Error ''Invalid Authorization header format'')"
    by (simp add: getBearerToken_def)
next
  assume h: "header_authorization req = Some (w @ ws @ tok)
        \<and> map toLowerCase_char w = ''bearer'' \<and> ws \<noteq> [] \<and> list_all is_space ws
        \<and> tok \<noteq> [] \<and> single_line tok \<and> \<not> is_space (hd tok)"
  then have "match_bearer (w @ ws @ tok) = Some tok"
    by (intro match_bearer_token) simp_all
  moreover from h have "w @ ws @ tok \<noteq> []" by simp
  ultimately show "getBearerToken req = Inr tok"
    using h by (simp add: getBearerToken_def)
next
  assume "getBearerToken req = Inr tok"
  then obtain h where "header_authorization req = Some h" and "match_bearer h = Some tok"
    by (auto simp: getBearerToken_def split: option.splits if_splits)
  then show "\<exists>h. header_authorization req = Some h \<and> bearer_shape h tok"
    using match_bearer_shape by blast
qed

lemma bearer_shape_word:
  assumes "bearer_shape h t"
  shows "map toLowerCase_char (take 6 h) = ''bearer''"
  using assms unfolding bearer_shape_def
proof (elim exE conjE)
  fix w ws
  assume h: "h = w @ ws @ t" and w: "map toLowerCase_char w = ''bearer''"
  from w have "length w = 6" by (rule bearer_word_length)
  then have "take 6 (w @ ws @ t) = w" by simp
  then have "take 6 h = w" by (simp only: h)
  then show ?thesis by (simp only: w)
qed

theorem getBearerToken_cases_witness:
  "getBearerToken (sample_request None None) = Inl (Error ''Missing Authorization header'')
   \<and> getBearerToken (sample_request (Some ''Basic dXNlcg=='') None) =
       Inl (Error ''Invalid Authorization header format'')
   \<and> getBearerToken (sample_request (Some ''bearer  ya29.token value'') None) =
       Inr ''ya29.token value''
   \<and> bearer_shape ''bearer  ya29.token value'' ''ya29.token value''"
proof -
  note inst = getBearerToken_cases
  have "header_authorization (sample_request None None) = None \<or>
      header_authorization (sample_request None None) = Some []"
    by (simp add: sample_request_def)
  with inst[of "sample_request None None"]
  have w1: "getBearerToken (sample_request None None) = Inl (Error ''Missing Authorization header'')"
    by blast
  have "\<forall>t. \<not> bearer_shape ''Basic dXNlcg=='' t"
  proof (intro allI notI)
    fix t assume "bearer_shape ''Basic dXNlcg=='' t"
    from bearer_shape_word[OF this] show False
      by (simp add: toLowerCase_char_def charCode_def)
  qed
  with inst[of "sample_request (Some ''Basic dXNlcg=='') None" "''Basic dXNlcg==''"]
  have w2: "getBearerToken (sample_request (Some ''Basic dXNlcg=='') None) =
       Inl (Error ''Invalid Authorization header format'')"
    by (simp add: sample_request_def)
  have shape: "map toLowerCase_char ''bearer'' = ''bearer''" "list_all is_space ''  ''"
    "single_line ''ya29.token value''" "\<not> is_space (hd ''ya29.token value'')"
    by (simp_all add: toLowerCase_char_def is_space_def single_line_def is_line_terminator_def
        charCode_def)
  with inst[of "sample_request (Some ''bearer  ya29.token value'') None" _
      "''bearer''" "''  ''" "''ya29.token value''"]
  have w3: "getBearerToken (sample_request (Some ''bearer  ya29.token value'') None) =
       Inr ''ya29.token value''"
    by (simp add: sample_request_def)
  with inst[of "sample_request (Some ''bearer  ya29.token value'') None" _ _ _ "''ya29.token value''"]
  have w4: "bearer_shape ''bearer  ya29.token value'' ''ya29.token value''"
    by (simp add: sample_request_def)
  from w1 w2 w3 w4 show ?thesis by blast
qed

text \<open>The claim as stated fails for a header that is present and empty: it has not the
  shape, and the failure is the one for a missing header.\<close>

theorem empty_header_counterexample:
  "match_bearer [] = None
   \<and> getBearerToken (sample_request (Some []) None) = Inl (Error ''Missing Authorization header'')
   \<and> Error ''Missing Authorization header'' \<noteq> Error ''Invalid Authorization header format''"
  by (simp add: match_bearer_def getBearerToken_def sample_request_def)

section \<open>The upload limit\<close>

lemma lookup_upload: "lookup_handler ''drive_upload_file'' = Own drive_upload_file"
  by (simp add: lookup_handler_def toolHandlers_def)

lemma upload_too_large:
  assumes "buffer_from_base64 P (field ''data'' args) = Inr buffer"
    and "10 * 1024 * 1024 < length buffer"
  shows "drive_upload_file P S args c =
     ([], Inl (Error ''File too large: max 10MB base64 payload supported''))"
  using assms by (simp add: drive_upload_file_def lift_io_def bind_io_def throw_io_def)

text \<open>
  Claim C8. When the decoded payload of a \<open>drive_upload_file\<close> invocation is longer
  than 10 * 1024 * 1024 bytes, the handler fails with
  \<open>File too large: max 10MB base64 payload supported\<close> and has made no external call;
  so does the dispatch endpoint for such a request.
\<close>

theorem drive_upload_file_limit:
  "(buffer_from_base64 P (field ''data'' args) = Inr buffer
      \<and> 10 * 1024 * 1024 < length buffer \<longrightarrow>
      drive_upload_file P S args c =
        ([], Inl (Error ''File too large: max 10MB base64 payload supported'')))
   \<and> (buffer_from_base64 P (field ''data'' args) = Inr buffer
      \<and> 10 * 1024 * 1024 < length buffer
      \<and> body_name req = Some ''drive_upload_file'' \<and> body_args req = Some args
      \<and> getBearerToken req = Inr tok \<longrightarrow>
      mcp_tool P S req =
        ([], error_response 400 ''File too large: max 10MB base64 payload supported''))"
proof (intro conjI impI)
  assume "buffer_from_base64 P (field ''data'' args) = Inr buffer
      \<and> 10 * 1024 * 1024 < length buffer"
  then show "drive_upload_file P S args c =
        ([], Inl (Error ''File too large: max 10MB base64 payload supported''))"
    using upload_too_large[of P args buffer S c] by simp
next
  assume h: "buffer_from_base64 P (field ''data'' args) = Inr buffer
      \<and> 10 * 1024 * 1024 < length buffer
      \<and> body_name req = Some ''drive_upload_file'' \<and> body_args req = Some args
      \<and> getBearerToken req = Inr tok"
  then have "drive_upload_file P S args (Clients tok) =
        ([], Inl (Error ''File too large: max 10MB base64 payload supported''))"
    using upload_too_large[of P args buffer S "Clients tok"] by simp
  with h show "mcp_tool P S req =
        ([], error_response 400 ''File too large: max 10MB base64 payload supported'')"
    by (simp add: mcp_tool_def lookup_upload getGoogleClients_def caught_def)
qed

lemma sample_bearer:
  "getBearerToken (sample_request (Some ''Bearer ya29.token'') n) = Inr ''ya29.token''"
  by (simp add: getBearerToken_def match_bearer_def sample_request_def toLowerCase_char_def
      is_space_def is_line_terminator_def charCode_def Let_def char_of_def bit_iff_odd)

theorem drive_upload_file_limit_witness:
  "length (replicate (10 * 1024 * 1024 + 1) (0::nat)) = 10485761
   \<and> drive_upload_file (platform_decoding (10 * 1024 * 1024 + 1)) sample_service
        [(''name'', JStr ''big.bin''), (''data'', JStr ''AAAA'')] (Clients ''ya29.token'') =
       ([], Inl (Error ''File too large: max 10MB base64 payload supported''))
   \<and> mcp_tool (platform_decoding (10 * 1024 * 1024 + 1)) sample_service
        ((sample_request (Some ''Bearer ya29.token'') (Some ''drive_upload_file''))
           \<lparr>body_args := Some [(''name'', JStr ''big.bin''), (''data'', JStr ''AAAA'')]\<rparr>) =
       ([], error_response 400 ''File too large: max 10MB base64 payload supported'')"
proof -
  let ?P = "platform_decoding (10 * 1024 * 1024 + 1)"
  let ?args = "[(''name'', JStr ''big.bin''), (''data'', JStr ''AAAA'')]"
  let ?req = "(sample_request (Some ''Bearer ya29.token'') (Some ''drive_upload_file''))
           \<lparr>body_args := Some ?args\<rparr>"
  have dec: "buffer_from_base64 ?P (field ''data'' ?args) = Inr (replicate (10 * 1024 * 1024 + 1) 0)"
    by (simp add: platform_decoding_def)
  have len: "10 * 1024 * 1024 < length (replicate (10 * 1024 * 1024 + 1) (0::nat))"
    by simp
  have req: "body_name ?req = Some ''drive_upload_file''" "body_args ?req = Some ?args"
    by (simp_all add: sample_request_def)
  have tok: "getBearerToken ?req = Inr ''ya29.token''"
    using sample_bearer[of "Some ''drive_upload_file''"]
    by (simp add: getBearerToken_def sample_request_def)
  from drive_upload_file_limit[of ?P ?args "replicate (10 * 1024 * 1024 + 1) 0" sample_service
      "Clients ''ya29.token''" ?req "''ya29.token''"] dec len req tok
  show ?thesis by simp
qed

section \<open>Dispatch\<close>

lemma empty_name_not_registered: "map_of toolHandlers [] = None"
  by (simp add: toolHandlers_def)

lemma registered_name:
  assumes "map_of toolHandlers name = Some h"
  shows "name \<noteq> []" and "lookup_handler name = Own h"
proof -
  from assms empty_name_not_registered show "name \<noteq> []" by auto
  from assms show "lookup_handler name = Own h" by (simp add: lookup_handler_def)
qed

lemma unregistered_name:
  assumes "name \<notin> set (map fst toolHandlers)" and "name \<notin> set object_prototype_keys"
  shows "lookup_handler name = Absent"
proof -
  from assms(1) have "map_of toolHandlers name = None"
    by (simp add: map_of_eq_None_iff)
  with assms(2) show ?thesis by (simp add: lookup_handler_def)
qed

lemma dispatch_registered:
  assumes "body_name req = Some name" and "map_of toolHandlers name = Some h"
  shows "mcp_tool P S req =
     (case getGoogleClients req of
        Inl err \<Rightarrow> ([], caught err)
      | Inr clients \<Rightarrow>
          (case h P S (case body_args req of None \<Rightarrow> [] | Some a \<Rightarrow> a) clients of
             (calls, Inr result) \<Rightarrow> (calls, \<lparr>http_status = 200, http_body = result\<rparr>)
           | (calls, Inl err) \<Rightarrow> (calls, caught err)))"
  using assms(1) registered_name[OF assms(2)] by (simp add: mcp_tool_def split: sum.splits)

text \<open>
  Claim C9, as amended. A request without a tool name, or with an empty one, is answered
  \<open>Missing tool name\<close>. A request whose non-empty tool name is neither a key of the
  registry nor the name of a property that every object inherits is answered
  \<open>Unknown tool\<close> with status 404. Both answers are given whatever the credentials are,
  with no handler invoked and no external call made. For a registered name the endpoint
  first extracts the credential, and answers with its failure without invoking the
  handler; otherwise it invokes the handler with the supplied arguments (an empty object
  when there are none) and the clients built from the token, and returns the handler's
  result as it is; a failure thrown by the handler is answered with status 400 and the
  message of the failure, or \<open>Unknown error\<close> when the message is empty.
\<close>

theorem mcp_tool_dispatch:
  "(body_name req = None \<or> body_name req = Some [] \<longrightarrow>
      mcp_tool P S req = ([], error_response 400 ''Missing tool name''))
   \<and> (body_name req = Some name \<and> name \<noteq> []
        \<and> name \<notin> set (map fst toolHandlers) \<and> name \<notin> set object_prototype_keys \<longrightarrow>
      mcp_tool P S req = ([], error_response 404 (''Unknown tool: '' @ name)))
   \<and> (body_name req = Some name \<and> map_of toolHandlers name = Some h
        \<and> getBearerToken req = Inl err \<longrightarrow>
      mcp_tool P S req = ([], error_response 400 (message err)))
   \<and> (body_name req = Some name \<and> map_of toolHandlers name = Some h
        \<and> getBearerToken req = Inr tok
        \<and> h P S (case body_args req of None \<Rightarrow> [] | Some a \<Rightarrow> a) (Clients tok) =
            (calls, Inr result) \<longrightarrow>
      mcp_tool P S req = (calls, \<lparr>http_status = 200, http_body = result\<rparr>))
   \<and> (body_name req = Some name \<and> map_of toolHandlers name = Some h
        \<and> getBearerToken req = Inr tok
        \<and> h P S (case body_args req of None \<Rightarrow> [] | Some a \<Rightarrow> a) (Clients tok) =
            (calls, Inl err) \<longrightarrow>
      mcp_tool P S req =
        (calls, error_response 400 (if message err \<noteq> [] then message err else ''Unknown error'')))"
proof (intro conjI impI)
  assume "body_name req = None \<or> body_name req = Some []"
  then show "mcp_tool P S req = ([], error_response 400 ''Missing tool name'')"
    by (auto simp: mcp_tool_def)
next
  assume h: "body_name req = Some name \<and> name \<noteq> []
        \<and> name \<notin> set (map fst toolHandlers) \<and> name \<notin> set object_prototype_keys"
  then have "lookup_handler name = Absent" by (intro unregistered_name) simp_all
  with h show "mcp_tool P S req = ([], error_response 404 (''Unknown tool: '' @ name))"
    by (simp add: mcp_tool_def)
next
  assume h: "body_name req = Some name \<and> map_of toolHandlers name = Some h
        \<and> getBearerToken req = Inl err"
  then have nonempty: "message err \<noteq> []"
    by (auto simp: getBearerToken_def split: option.splits if_splits)
  from h have "mcp_tool P S req = ([], caught err)"
    using dispatch_registered[of req name h P S] by (simp add: getGoogleClients_def)
  with nonempty show "mcp_tool P S req = ([], error_response 400 (message err))"
    by (simp add: caught_def)
next
  assume h: "body_name req = Some name \<and> map_of toolHandlers name = Some h
        \<and> getBearerToken req = Inr tok
        \<and> h P S (case body_args req of None \<Rightarrow> [] | Some a \<Rightarrow> a) (Clients tok) =
            (calls, Inr result)"
  then show "mcp_tool P S req = (calls, \<lparr>http_status = 200, http_body = result\<rparr>)"
    using dispatch_registered[of req name h P S] by (simp add: getGoogleClients_def)
next
  assume h: "body_name req = Some name \<and> map_of toolHandlers name = Some h
        \<and> getBearerToken req = Inr tok
        \<and> h P S (case body_args req of None \<Rightarrow> [] | Some a \<Rightarrow> a) (Clients tok) =
            (calls, Inl err)"
  then show "mcp_tool P S req =
        (calls, error_response 400 (if message err \<noteq> [] then message err else ''Unknown error''))"
    using dispatch_registered[of req name h P S] by (simp add: getGoogleClients_def caught_def)
qed

lemma get_info_registered: "map_of toolHandlers ''sheets.get_info'' = Some sheets_get_info"
  by (simp add: toolHandlers_def)

lemma get_info_call:
  "sheets_get_info P S [] (Clients tok) =
     ([request_of (Clients tok) Spreadsheets_get (JObj [(''spreadsheetId'', JUndefined)])],
      case answer_json S
             (request_of (Clients tok) Spreadsheets_get (JObj [(''spreadsheetId'', JUndefined)])) of
        Inl e \<Rightarrow> Inl e | Inr res \<Rightarrow> Inr (data res))"
  by (simp add: sheets_get_info_def call_data_def send_json_def bind_io_def return_io_def
      field_def split: sum.splits)

theorem mcp_tool_dispatch_witness:
  "mcp_tool (platform_decoding 0) sample_service (sample_request None None) =
     ([], error_response 400 ''Missing tool name'')
   \<and> mcp_tool (platform_decoding 0) sample_service (sample_request None (Some ''sheets.nope'')) =
     ([], error_response 404 ''Unknown tool: sheets.nope'')
   \<and> mcp_tool (platform_decoding 0) sample_service
        (sample_request (Some ''Basic dXNlcg=='') (Some ''sheets.get_info'')) =
     ([], error_response 400 ''Invalid Authorization header format'')
   \<and> mcp_tool (platform_decoding 0) sample_service
        (sample_request (Some ''Bearer ya29.token'') (Some ''sheets.get_info'')) =
     ([request_of (Clients ''ya29.token'') Spreadsheets_get (JObj [(''spreadsheetId'', JUndefined)])],
      \<lparr>http_status = 200, http_body = JObj []\<rparr>)
   \<and> mcp_tool (platform_decoding 0) (failing_service ''quota exceeded'')
        (sample_request (Some ''Bearer ya29.token'') (Some ''sheets.get_info'')) =
     ([request_of (Clients ''ya29.token'') Spreadsheets_get (JObj [(''spreadsheetId'', JUndefined)])],
      error_response 400 ''quota exceeded'')"
proof -
  note inst = mcp_tool_dispatch
  let ?P = "platform_decoding 0"
  let ?call = "request_of (Clients ''ya29.token'') Spreadsheets_get
                 (JObj [(''spreadsheetId'', JUndefined)])"
  let ?ok = "sample_request (Some ''Bearer ya29.token'') (Some ''sheets.get_info'')"
  have "body_name (sample_request None None) = None \<or> body_name (sample_request None None) = Some []"
    by (simp add: sample_request_def)
  with inst[of "sample_request None None" ?P sample_service]
  have w1: "mcp_tool ?P sample_service (sample_request None None) =
     ([], error_response 400 ''Missing tool name'')"
    by blast
  have "body_name (sample_request None (Some ''sheets.nope'')) = Some ''sheets.nope''
      \<and> ''sheets.nope'' \<noteq> [] \<and> ''sheets.nope'' \<notin> set (map fst toolHandlers)
      \<and> ''sheets.nope'' \<notin> set object_prototype_keys"
    by (simp add: sample_request_def toolHandlers_def object_prototype_keys_def)
  with inst[of "sample_request None (Some ''sheets.nope'')" ?P sample_service "''sheets.nope''"]
  have w2: "mcp_tool ?P sample_service (sample_request None (Some ''sheets.nope'')) =
     ([], error_response 404 ''Unknown tool: sheets.nope'')"
    by simp
  have "getBearerToken (sample_request (Some ''Basic dXNlcg=='') (Some ''sheets.get_info'')) =
      Inl (Error ''Invalid Authorization header format'')"
    by (simp add: getBearerToken_def match_bearer_def sample_request_def toLowerCase_char_def
        charCode_def char_of_def bit_iff_odd)
  with inst[of "sample_request (Some ''Basic dXNlcg=='') (Some ''sheets.get_info'')" ?P
      sample_service "''sheets.get_info''" sheets_get_info
      "Error ''Invalid Authorization header format''"]
    get_info_registered
  have w3: "mcp_tool ?P sample_service
        (sample_request (Some ''Basic dXNlcg=='') (Some ''sheets.get_info'')) =
     ([], error_response 400 ''Invalid Authorization header format'')"
    by (simp add: sample_request_def)
  have args: "body_name ?ok = Some ''sheets.get_info''" "body_args ?ok = None"
    by (simp_all add: sample_request_def)
  have run_ok: "sheets_get_info ?P sample_service [] (Clients ''ya29.token'') =
      ([?call], Inr (JObj []))"
    by (simp add: get_info_call sample_defs)
  from inst[of ?ok ?P sample_service "''sheets.get_info''" sheets_get_info _ "''ya29.token''"
      "[?call]" "JObj []"]
    args get_info_registered sample_bearer[of "Some ''sheets.get_info''"] run_ok
  have w4: "mcp_tool ?P sample_service ?ok = ([?call], \<lparr>http_status = 200, http_body = JObj []\<rparr>)"
    by simp
  have run_fail: "sheets_get_info ?P (failing_service ''quota exceeded'') [] (Clients ''ya29.token'') =
      ([?call], Inl (Error ''quota exceeded''))"
    by (simp add: get_info_call failing_service_def)
  from inst[of ?ok ?P "failing_service ''quota exceeded''" "''sheets.get_info''" sheets_get_info
      "Error ''quota exceeded''" "''ya29.token''" "[?call]"]
    args get_info_registered sample_bearer[of "Some ''sheets.get_info''"] run_fail
  have w5: "mcp_tool ?P (failing_service ''quota exceeded'') ?ok =
      ([?call], error_response 400 ''quota exceeded'')"
    by simp
  from w1 w2 w3 w4 w5 show ?thesis by blast
qed

text \<open>The claim as stated fails. An empty tool name is no key of the registry and is
  answered \<open>Missing tool name\<close>, not \<open>Unknown tool\<close>; a registered tool without
  credentials is answered without its handler being invoked; and a failure with an empty
  message is answered \<open>Unknown error\<close>.\<close>

theorem dispatch_counterexample:
  "[] \<notin> set (map fst toolHandlers)
   \<and> mcp_tool (platform_decoding 0) sample_service
        (sample_request (Some ''Bearer ya29.token'') (Some [])) =
       ([], error_response 400 ''Missing tool name'')
   \<and> error_response 400 ''Missing tool name'' \<noteq> error_response 404 (''Unknown tool: '' @ [])
   \<and> map_of toolHandlers ''sheets.get_info'' = Some sheets_get_info
   \<and> mcp_tool (platform_decoding 0) sample_service
        (sample_request None (Some ''sheets.get_info'')) =
       ([], error_response 400 ''Missing Authorization header'')
   \<and> mcp_tool (platform_decoding 0) (failing_service [])
        (sample_request (Some ''Bearer ya29.token'') (Some ''sheets.get_info'')) =
       ([request_of (Clients ''ya29.token'') Spreadsheets_get
           (JObj [(''spreadsheetId'', JUndefined)])],
        error_response 400 ''Unknown error'')"
proof -
  let ?ok = "sample_request (Some ''Bearer ya29.token'') (Some ''sheets.get_info'')"
  have c1: "[] \<notin> set (map fst toolHandlers)" by (simp add: toolHandlers_def)
  have c2: "mcp_tool (platform_decoding 0) sample_service
        (sample_request (Some ''Bearer ya29.token'') (Some [])) =
       ([], error_response 400 ''Missing tool name'')"
    by (simp add: mcp_tool_def sample_request_def)
  have c3: "error_response 400 ''Missing tool name'' \<noteq> error_response 404 (''Unknown tool: '' @ [])"
    by (simp add: error_response_def)
  have none: "getGoogleClients (sample_request None (Some ''sheets.get_info'')) =
      Inl (Error ''Missing Authorization header'')"
    by (simp add: getGoogleClients_def getBearerToken_def sample_request_def)
  have bn: "body_name (sample_request None (Some ''sheets.get_info'')) = Some ''sheets.get_info''"
    "body_name ?ok = Some ''sheets.get_info''" "body_args ?ok = None"
    by (simp_all add: sample_request_def)
  have c5: "mcp_tool (platform_decoding 0) sample_service
        (sample_request None (Some ''sheets.get_info'')) =
       ([], error_response 400 ''Missing Authorization header'')"
    using dispatch_registered[OF bn(1) get_info_registered, of "platform_decoding 0" sample_service]
    by (simp add: none caught_def)
  have cl: "getGoogleClients ?ok = Inr (Clients ''ya29.token'')"
    by (simp add: getGoogleClients_def sample_bearer)
  have c6: "mcp_tool (platform_decoding 0) (failing_service []) ?ok =
       ([request_of (Clients ''ya29.token'') Spreadsheets_get
           (JObj [(''spreadsheetId'', JUndefined)])],
        error_response 400 ''Unknown error'')"
    using dispatch_registered[OF bn(2) get_info_registered, of "platform_decoding 0" "failing_service []"]
    by (simp add: cl bn(3) get_info_call failing_service_def caught_def)
  from c1 c2 c3 get_info_registered c5 c6 show ?thesis by blast
qed

text \<open>A name that the registry only inherits is not rejected: with credentials, the
  inherited member is called like a handler.\<close>

lemma inherited_name_is_dispatched:
  "lookup_handler ''toString'' = Inherited
   \<and> ''toString'' \<notin> set (map fst toolHandlers)
   \<and> mcp_tool (platform_decoding 0) sample_service
        (sample_request (Some ''Bearer ya29.token'') (Some ''toString'')) =
       ([], \<lparr>http_status = 200, http_body = JStr ''[object Undefined]''\<rparr>)"
proof -
  have l: "lookup_handler ''toString'' = Inherited"
    by (simp add: lookup_handler_def toolHandlers_def object_prototype_keys_def)
  have k: "''toString'' \<notin> set (map fst toolHandlers)" by (simp add: toolHandlers_def)
  have cl: "getGoogleClients (sample_request (Some ''Bearer ya29.token'') (Some ''toString'')) =
      Inr (Clients ''ya29.token'')"
    by (simp add: getGoogleClients_def sample_bearer)
  have bn: "body_name (sample_request (Some ''Bearer ya29.token'') (Some ''toString'')) =
      Some ''toString''"
    "body_args (sample_request (Some ''Bearer ya29.token'') (Some ''toString'')) = None"
    by (simp_all add: sample_request_def)
  have "mcp_tool (platform_decoding 0) sample_service
        (sample_request (Some ''Bearer ya29.token'') (Some ''toString'')) =
       ([], \<lparr>http_status = 200, http_body = JStr ''[object Undefined]''\<rparr>)"
    by (simp add: mcp_tool_def bn l cl lift_io_def platform_decoding_def)
  with l k show ?thesis by blast
qed

end
